theory Spec2Isabelle
  imports Main "HOL-Library.Word"
begin

unbundle bit_operations_syntax

section \<open>Machine types and the constants of main.c\<close>

type_synonym uint8 = "8 word"
type_synonym int16 = "16 word"
type_synonym int32 = "32 word"

definition LIS3DH_DEVICE_ADDRESS :: uint8 where "LIS3DH_DEVICE_ADDRESS = 0x18"
definition LIS3DH_WHO_AM_I_REG_ADDR :: uint8 where "LIS3DH_WHO_AM_I_REG_ADDR = 0x0F"
definition LIS3DH_STATUS_REG :: uint8 where "LIS3DH_STATUS_REG = 0x27"
definition LIS3DH_STATUS_REG_NEW_VALUES :: uint8 where "LIS3DH_STATUS_REG_NEW_VALUES = 0x07"
definition LIS3DH_CTRL_REG1 :: uint8 where "LIS3DH_CTRL_REG1 = 0x20"
definition LIS3DH_100Hz_CTRL_REG1 :: uint8 where "LIS3DH_100Hz_CTRL_REG1 = 0x57"
definition LIS3DH_TEMP_CFG_REG :: uint8 where "LIS3DH_TEMP_CFG_REG = 0x1F"
definition LIS3DH_TEMP_CFG_REG_NOT_ACTIVE :: uint8 where "LIS3DH_TEMP_CFG_REG_NOT_ACTIVE = 0x00"
definition LIS3DH_CTRL_REG4 :: uint8 where "LIS3DH_CTRL_REG4 = 0x23"
definition LIS3DH_CTRL_REG4_4G_HIGH :: uint8 where "LIS3DH_CTRL_REG4_4G_HIGH = 0x18"
definition LIS3DH_OUT_X_L :: uint8 where "LIS3DH_OUT_X_L = 0x28"
definition LIS3DH_OUT_Y_L :: uint8 where "LIS3DH_OUT_Y_L = 0x2A"
definition LIS3DH_OUT_Z_L :: uint8 where "LIS3DH_OUT_Z_L = 0x2C"

text \<open>The two sensitivity macros, with the values main.c gives them (lines 92 and 93).\<close>

definition LIS3DH_SENS_2G :: int16 where "LIS3DH_SENS_2G = 4"
definition LIS3DH_SENS_4G :: int16 where "LIS3DH_SENS_4G = 2"

section \<open>Binary floating point, as far as the conversion needs it\<close>

text \<open>
  The conversion of main.c multiplies in \<open>double\<close>, stores into a \<open>float32\<close> and casts
  to \<open>int32\<close>. A finite binary floating-point number is a pair \<open>(m, e)\<close> standing for
  \<open>m * 2 ^ e\<close>. Every operation rounds to the nearest value of its format, ties to the
  even significand (the IEEE 754 default that the target's arithmetic uses). The
  exponent range is left out: the magnitudes reached from an \<open>int16\<close> operand lie
  between 9 and 2 ^ 19, far inside both formats.
\<close>

type_synonym binfloat = "int \<times> int"

fun bitlen :: "nat \<Rightarrow> nat" where
  "bitlen n = (if n = 0 then 0 else Suc (bitlen (n div 2)))"

declare bitlen.simps [simp del]

text \<open>\<open>a / 2 ^ sh\<close> rounded to the nearest natural number, a tie to the even one.\<close>

definition round_shift :: "nat \<Rightarrow> nat \<Rightarrow> nat" where
  "round_shift a sh =
     (let q = a div 2 ^ sh;
          r = a mod 2 ^ sh;
          h = 2 ^ (sh - 1)
      in if h < r \<or> (r = h \<and> odd q) then q + 1 else q)"

text \<open>Round \<open>m * 2 ^ e\<close> to \<open>p\<close> significant bits, to nearest, ties to even.\<close>

definition rne :: "nat \<Rightarrow> binfloat \<Rightarrow> binfloat" where
  "rne p x =
     (case x of (m, e) \<Rightarrow>
        let a = nat \<bar>m\<bar>; b = bitlen a in
        if b \<le> p then (m, e)
        else (sgn m * int (round_shift a (b - p)), e + int (b - p)))"

text \<open>\<open>G_TO_ACC\<close>: the \<open>double\<close> nearest to the literal 9.80665 of line 99.\<close>

definition G_TO_ACC :: binfloat where
  "G_TO_ACC = rne 53 (980665 * 2 ^ 70 div 100000, - 70)"

text \<open>An \<open>int16\<close> converted to \<open>double\<close>: exact.\<close>

definition i2d :: "int16 \<Rightarrow> binfloat" where
  "i2d n = (sint n, 0)"

definition dmul :: "binfloat \<Rightarrow> binfloat \<Rightarrow> binfloat" where
  "dmul x y = (case x of (m1, e1) \<Rightarrow> case y of (m2, e2) \<Rightarrow> rne 53 (m1 * m2, e1 + e2))"

definition d2f :: "binfloat \<Rightarrow> binfloat" where
  "d2f x = rne 24 x"

text \<open>The cast of a \<open>float32\<close> to \<open>int32\<close> drops the fraction (rounds toward zero).\<close>

definition trunc_toward_zero :: "binfloat \<Rightarrow> int" where
  "trunc_toward_zero x =
     (case x of (m, e) \<Rightarrow>
        if 0 \<le> e then m * 2 ^ nat e else sgn m * (\<bar>m\<bar> div 2 ^ nat (- e)))"

definition f2i :: "binfloat \<Rightarrow> int32" where
  "f2i x = word_of_int (trunc_toward_zero x)"

section \<open>Decoding and converting one axis (lines 362 to 370)\<close>

text \<open>
  Line 362: \<open>(int16)((AccelerometerData[1] | (AccelerometerData[0]<<8)))>>4\<close>. The two
  bytes are promoted to \<open>int\<close>, combined, cast to \<open>int16\<close>; the shift acts on the
  promoted signed value and the result is stored in the \<open>int16_t OutTemp\<close>.
\<close>

definition raw16 :: "uint8 \<Rightarrow> uint8 \<Rightarrow> int16" where
  "raw16 d0 d1 = ucast ((ucast d1 :: 32 word) OR push_bit 8 (ucast d0 :: 32 word))"

definition decode_sample :: "uint8 \<Rightarrow> uint8 \<Rightarrow> int16" where
  "decode_sample d0 d1 = ucast (signed_drop_bit 4 (scast (raw16 d0 d1) :: 32 word))"

text \<open>Line 363: \<open>OutTemp = OutTemp*LIS3DH_SENS_4G\<close>, stored back into 16 bits.\<close>

definition apply_sensitivity :: "int16 \<Rightarrow> int16" where
  "apply_sensitivity OutTemp = OutTemp * LIS3DH_SENS_4G"

text \<open>Lines 364 and 365: the product in \<open>double\<close>, the \<open>float32\<close> store, the \<open>int32\<close> cast.\<close>

definition to_acceleration :: "int16 \<Rightarrow> int32" where
  "to_acceleration OutTemp = f2i (d2f (dmul (i2d OutTemp) G_TO_ACC))"

definition physical_value :: "int16 \<Rightarrow> int32" where
  "physical_value raw_shifted = to_acceleration (apply_sensitivity raw_shifted)"

text \<open>Lines 367 to 370: the four bytes of \<open>OutTempHR_int\<close>, least significant first.\<close>

definition pack_bytes :: "int32 \<Rightarrow> uint8 list" where
  "pack_bytes v =
     [ucast (v AND 0xFF),
      ucast (signed_drop_bit 8 v AND 0xFF),
      ucast (signed_drop_bit 16 v AND 0xFF),
      ucast (signed_drop_bit 24 v)]"

text \<open>Writing the four bytes at offsets \<open>k\<close> to \<open>k + 3\<close> of the frame array.\<close>

definition store_axis :: "nat \<Rightarrow> int32 \<Rightarrow> uint8 list \<Rightarrow> uint8 list" where
  "store_axis k v out =
     (case pack_bytes v of
        [b0, b1, b2, b3] \<Rightarrow> out[k := b0, k + 1 := b1, k + 2 := b2, k + 3 := b3]
      | _ \<Rightarrow> out)"

definition convert_axis :: "nat \<Rightarrow> uint8 \<Rightarrow> uint8 \<Rightarrow> uint8 list \<Rightarrow> uint8 list" where
  "convert_axis k d0 d1 out = store_axis k (physical_value (decode_sample d0 d1)) out"

section \<open>The bus, the serial port and the program state\<close>

text \<open>
  Modelled from the spec: the type \<open>ErrorCode\<close> is declared in I2C_Interface.h, which
  is not among the sources. main.c only compares against \<open>NO_ERROR\<close>; the failure
  values are the two of the spec's error taxonomy.
\<close>

datatype ErrorCode = NO_ERROR | NoAckError | BusError

text \<open>One entry per transaction that main.c issues, in the order of issue.\<close>

datatype bus_op =
    IsDeviceConnected uint8
  | ReadRegister uint8 uint8
  | ReadRegisterMulti uint8 uint8 nat
  | WriteRegister uint8 uint8 uint8

text \<open>
  What a transaction leaves with its caller: the returned code, and the bytes found in
  the caller's buffer once the call is over (a single read uses \<open>byte0\<close> only, a write
  neither). On a failure the bytes are whatever the buffer holds afterwards.
\<close>

record reply =
  result :: ErrorCode
  byte0 :: uint8
  byte1 :: uint8

datatype uart_out = PutString string | PutArray "uint8 list"

text \<open>
  The variables of \<open>main\<close> that live across loop iterations, the device seen through the
  bus (\<open>bus n op\<close> answers the transaction \<open>op\<close> when it is the \<open>n\<close>-th one
  issued), the transactions issued so far and everything handed to the UART so far.
  \<open>CYBIT\<close> and the flag of the timer interrupt hold 0 or 1; they are booleans here
  and the \<open>&\<close> of line 354 is conjunction.
\<close>

record state =
  OutArrayHR :: "uint8 list"
  CTRL_Reg_start :: bool
  Timer_ISR_start :: bool
  bus :: "nat \<Rightarrow> bus_op \<Rightarrow> reply"
  bus_log :: "bus_op list"
  uart :: "uart_out list"

definition transact :: "bus_op \<Rightarrow> state \<Rightarrow> reply \<times> state" where
  "transact op s = (bus s (length (bus_log s)) op, s\<lparr>bus_log := bus_log s @ [op]\<rparr>)"

text \<open>
  The four functions of I2C_Interface.c are not among the sources. Each is modelled from
  the spec as one atomic transaction that returns a code.
\<close>

text \<open>
  Modelled from the spec: \<open>I2C_Peripheral_IsDeviceConnected\<close> of I2C_Interface.c, an
  address-only probe that answers whether the address was acknowledged.
\<close>

definition I2C_Peripheral_IsDeviceConnected :: "uint8 \<Rightarrow> state \<Rightarrow> bool \<times> state" where
  "I2C_Peripheral_IsDeviceConnected dev s =
     (case transact (IsDeviceConnected dev) s of (r, s') \<Rightarrow> (result r = NO_ERROR, s'))"

text \<open>
  Modelled from the spec: \<open>I2C_Peripheral_ReadRegister\<close> of I2C_Interface.c, the read of
  one register into the caller's byte.
\<close>

definition I2C_Peripheral_ReadRegister ::
  "uint8 \<Rightarrow> uint8 \<Rightarrow> state \<Rightarrow> (ErrorCode \<times> uint8) \<times> state" where
  "I2C_Peripheral_ReadRegister dev reg s =
     (case transact (ReadRegister dev reg) s of (r, s') \<Rightarrow> ((result r, byte0 r), s'))"

text \<open>
  Modelled from the spec: \<open>I2C_Peripheral_ReadRegisterMulti\<close> of I2C_Interface.c, the burst
  read. The registers come in ascending address order, so \<open>byte0\<close> is the register at
  the address asked for and \<open>byte1\<close> the next one; main.c only ever asks for two.
\<close>

definition I2C_Peripheral_ReadRegisterMulti ::
  "uint8 \<Rightarrow> uint8 \<Rightarrow> nat \<Rightarrow> state \<Rightarrow> (ErrorCode \<times> uint8 \<times> uint8) \<times> state" where
  "I2C_Peripheral_ReadRegisterMulti dev reg n s =
     (case transact (ReadRegisterMulti dev reg n) s of
        (r, s') \<Rightarrow> ((result r, byte0 r, byte1 r), s'))"

text \<open>
  Modelled from the spec: \<open>I2C_Peripheral_WriteRegister\<close> of I2C_Interface.c, the write of
  one byte to one register.
\<close>

definition I2C_Peripheral_WriteRegister ::
  "uint8 \<Rightarrow> uint8 \<Rightarrow> uint8 \<Rightarrow> state \<Rightarrow> ErrorCode \<times> state" where
  "I2C_Peripheral_WriteRegister dev reg v s =
     (case transact (WriteRegister dev reg v) s of (r, s') \<Rightarrow> (result r, s'))"

text \<open>
  Modelled from the spec: the two output functions of the UART component, which is not
  among the sources. They hand a string, or the first \<open>n\<close> bytes of an array, to the
  serial transport.
\<close>

definition UART_Debug_PutString :: "string \<Rightarrow> state \<Rightarrow> state" where
  "UART_Debug_PutString msg s = s\<lparr>uart := uart s @ [PutString msg]\<rparr>"

definition UART_Debug_PutArray :: "uint8 list \<Rightarrow> nat \<Rightarrow> state \<Rightarrow> state" where
  "UART_Debug_PutArray arr n s = s\<lparr>uart := uart s @ [PutArray (take n arr)]\<rparr>"

text \<open>
  Modelled from the spec: \<open>Custom_Timer_ISR\<close> of InterruptRoutines.c, which is not among
  the sources. The handler only sets the flag.
\<close>

definition Custom_Timer_ISR :: "state \<Rightarrow> state" where
  "Custom_Timer_ISR s = s\<lparr>Timer_ISR_start := True\<rparr>"

section \<open>Start-up (lines 118 to 307)\<close>

text \<open>
  Every line that start-up prints is a value here. The buffer \<open>message\<close> of line 115
  that \<open>sprintf\<close> fills is not modelled; it has 50 bytes, and some of the lines are
  longer.
\<close>

definition crlf :: string where
  "crlf = [CHR 0x0D, CHR 0x0A]"

definition hex_digit :: "nat \<Rightarrow> char" where
  "hex_digit n = ''0123456789ABCDEF'' ! (n mod 16)"

text \<open>\<open>%02X\<close> of a value below 256.\<close>

definition hex02 :: "uint8 \<Rightarrow> string" where
  "hex02 b = [hex_digit (unat b div 16), hex_digit (unat b mod 16)]"

text \<open>The \<open>if (error == NO_ERROR) ... else ...\<close> that follows a transaction.\<close>

definition report :: "ErrorCode \<Rightarrow> string \<Rightarrow> string \<Rightarrow> state \<Rightarrow> state" where
  "report error ok_msg err_msg s =
     (if error = NO_ERROR then UART_Debug_PutString ok_msg s
      else UART_Debug_PutString err_msg s)"

definition probe :: "nat \<Rightarrow> state \<Rightarrow> state" where
  "probe i s =
     (case I2C_Peripheral_IsDeviceConnected (of_nat i) s of
        (connected, s1) \<Rightarrow>
          if connected
          then UART_Debug_PutString
                 (''Device 0x'' @ hex02 (of_nat i) @ '' is connected'' @ crlf) s1
          else s1)"

definition bus_scan :: "state \<Rightarrow> state" where
  "bus_scan s = fold probe [0..<128] s"

definition read_who_am_i :: "state \<Rightarrow> state" where
  "read_who_am_i s =
     (case I2C_Peripheral_ReadRegister LIS3DH_DEVICE_ADDRESS LIS3DH_WHO_AM_I_REG_ADDR s of
        ((error, who_am_i_reg), s1) \<Rightarrow>
          report error
            (''WHO AM I REG: 0x'' @ hex02 who_am_i_reg @ '' [Expected: 0x33]'' @ crlf)
            (''Error occurred during I2C comm'' @ crlf) s1)"

definition read_status_register :: "state \<Rightarrow> state" where
  "read_status_register s =
     (case I2C_Peripheral_ReadRegister LIS3DH_DEVICE_ADDRESS LIS3DH_STATUS_REG s of
        ((error, status_register), s1) \<Rightarrow>
          report error
            (''STATUS REGISTER: 0x'' @ hex02 status_register @ crlf)
            (''Error occurred during I2C comm to read status register'' @ crlf) s1)"

text \<open>Lines 169 to 225: control register 1 is read, written if it differs, read again.\<close>

definition configure_ctrl_reg1 :: "state \<Rightarrow> state" where
  "configure_ctrl_reg1 s =
     (case I2C_Peripheral_ReadRegister LIS3DH_DEVICE_ADDRESS LIS3DH_CTRL_REG1 s of
        ((error, ctrl_reg1), s1) \<Rightarrow>
          let s2 = report error
                     (''CONTROL REGISTER 1: 0x'' @ hex02 ctrl_reg1 @ crlf)
                     (''Error occurred during I2C comm to read control register 1'' @ crlf) s1;
              s3 = UART_Debug_PutString (crlf @ ''Writing new values..'' @ crlf) s2;
              s4 = (if ctrl_reg1 \<noteq> LIS3DH_100Hz_CTRL_REG1
                    then
                      (case I2C_Peripheral_WriteRegister LIS3DH_DEVICE_ADDRESS LIS3DH_CTRL_REG1
                              LIS3DH_100Hz_CTRL_REG1 s3 of
                         (error, s') \<Rightarrow>
                           report error
                             (''CONTROL REGISTER 1 successfully written as: 0x''
                                @ hex02 LIS3DH_100Hz_CTRL_REG1 @ crlf)
                             (''Error occurred during I2C comm to set control register 1'' @ crlf)
                             s')
                    else s3)
          in
            (case I2C_Peripheral_ReadRegister LIS3DH_DEVICE_ADDRESS LIS3DH_CTRL_REG1 s4 of
               ((error, ctrl_reg1), s5) \<Rightarrow>
                 report error
                   (''CONTROL REGISTER 1 after overwrite operation: 0x'' @ hex02 ctrl_reg1 @ crlf)
                   (''Error occurred during I2C comm to read control register 1'' @ crlf) s5))"

text \<open>
  Lines 233 to 267: the temperature configuration register is read, written, read again.
  The code returned by the write (line 250) is replaced by that of the read (line 254)
  before any test.
\<close>

definition configure_temp_cfg_reg :: "state \<Rightarrow> state" where
  "configure_temp_cfg_reg s =
     (case I2C_Peripheral_ReadRegister LIS3DH_DEVICE_ADDRESS LIS3DH_TEMP_CFG_REG s of
        ((error, tmp_cfg_reg), s1) \<Rightarrow>
          let s2 = report error
                     (''TEMPERATURE CONFIG REGISTER: 0x'' @ hex02 tmp_cfg_reg @ crlf)
                     (''Error occurred during I2C comm to read temperature config register''
                        @ crlf) s1
          in
            (case I2C_Peripheral_WriteRegister LIS3DH_DEVICE_ADDRESS LIS3DH_TEMP_CFG_REG
                    LIS3DH_TEMP_CFG_REG_NOT_ACTIVE s2 of
               (error, s3) \<Rightarrow>
                 (case I2C_Peripheral_ReadRegister LIS3DH_DEVICE_ADDRESS LIS3DH_TEMP_CFG_REG s3 of
                    ((error, tmp_cfg_reg), s4) \<Rightarrow>
                      report error
                        (''TEMPERATURE CONFIG REGISTER after being updated: 0x''
                           @ hex02 tmp_cfg_reg @ crlf)
                        (''Error occurred during I2C comm to read temperature config register''
                           @ crlf) s4)))"

text \<open>Lines 271 to 307: the same three transactions for control register 4.\<close>

definition configure_ctrl_reg4 :: "state \<Rightarrow> state" where
  "configure_ctrl_reg4 s =
     (case I2C_Peripheral_ReadRegister LIS3DH_DEVICE_ADDRESS LIS3DH_CTRL_REG4 s of
        ((error, ctrl_reg4), s1) \<Rightarrow>
          let s2 = report error
                     (''CONTROL REGISTER 4: 0x'' @ hex02 ctrl_reg4 @ crlf)
                     (''Error occurred during I2C comm to read control register4'' @ crlf) s1
          in
            (case I2C_Peripheral_WriteRegister LIS3DH_DEVICE_ADDRESS LIS3DH_CTRL_REG4
                    LIS3DH_CTRL_REG4_4G_HIGH s2 of
               (error, s3) \<Rightarrow>
                 (case I2C_Peripheral_ReadRegister LIS3DH_DEVICE_ADDRESS LIS3DH_CTRL_REG4 s3 of
                    ((error, ctrl_reg4), s4) \<Rightarrow>
                      report error
                        (''CONTROL REGISTER 4 after being updated: 0x'' @ hex02 ctrl_reg4 @ crlf)
                        (''Error occurred during I2C comm to read control register4'' @ crlf)
                        s4)))"

definition startup :: "state \<Rightarrow> state" where
  "startup s =
     configure_ctrl_reg4 (configure_temp_cfg_reg (configure_ctrl_reg1
       (read_status_register (read_who_am_i (bus_scan s)))))"

section \<open>The acquisition loop (lines 320 to 421)\<close>

text \<open>Lines 325 to 331: the flags start at 0, header and footer are written once.\<close>

definition main_init :: "state \<Rightarrow> state" where
  "main_init s =
     s\<lparr>OutArrayHR := (OutArrayHR s)[0 := 0xA0, 13 := 0xC0],
       CTRL_Reg_start := False,
       Timer_ISR_start := False\<rparr>"

text \<open>Lines 340 to 350: the status register is read and tested against the mask.\<close>

definition poll_status :: "state \<Rightarrow> state" where
  "poll_status s =
     (case I2C_Peripheral_ReadRegister LIS3DH_DEVICE_ADDRESS LIS3DH_STATUS_REG s of
        ((error, Check_data), s1) \<Rightarrow>
          if error = NO_ERROR
          then (if Check_data AND LIS3DH_STATUS_REG_NEW_VALUES = LIS3DH_STATUS_REG_NEW_VALUES
                then s1\<lparr>CTRL_Reg_start := True\<rparr> else s1)
          else s1)"

text \<open>
  Lines 356 to 375 for X, repeated at 378 to 394 for Y and 397 to 412 for Z: a burst
  read of two registers from \<open>reg\<close>, and on success the conversion into the four frame
  bytes from offset \<open>k\<close>.
\<close>

definition read_axis :: "uint8 \<Rightarrow> nat \<Rightarrow> state \<Rightarrow> state" where
  "read_axis reg k s =
     (case I2C_Peripheral_ReadRegisterMulti LIS3DH_DEVICE_ADDRESS reg 2 s of
        ((error, d0, d1), s1) \<Rightarrow>
          if error = NO_ERROR
          then s1\<lparr>OutArrayHR := convert_axis k d0 d1 (OutArrayHR s1)\<rparr>
          else s1)"

definition sample_block :: "state \<Rightarrow> state" where
  "sample_block s =
     (let s1 = read_axis LIS3DH_OUT_X_L 1 s;
          s2 = read_axis LIS3DH_OUT_Y_L 5 s1;
          s3 = read_axis LIS3DH_OUT_Z_L 9 s2
      in UART_Debug_PutArray (OutArrayHR s3) 14 s3)"

definition loop_body :: "state \<Rightarrow> state" where
  "loop_body s =
     (let s1 = poll_status s;
          s2 = (if CTRL_Reg_start s1 \<and> Timer_ISR_start s1 then sample_block s1 else s1)
      in s2\<lparr>CTRL_Reg_start := False, Timer_ISR_start := False\<rparr>)"

text \<open>
  One pass through the loop; \<open>tick\<close> says whether the timer interrupt has fired since
  the flags were last cleared.
\<close>

definition loop_iteration :: "bool \<Rightarrow> state \<Rightarrow> state" where
  "loop_iteration tick s = loop_body (if tick then Custom_Timer_ISR s else s)"

text \<open>The first \<open>length ticks\<close> passes of the unbounded loop.\<close>

fun run :: "bool list \<Rightarrow> state \<Rightarrow> state" where
  "run [] s = s"
| "run (tick # ticks) s = run ticks (loop_iteration tick s)"

text \<open>
  The state \<open>main\<close> starts from: the 14 cells of the frame array hold arbitrary bytes
  \<open>cells 0 .. cells 13\<close>, nothing has been sent yet.
\<close>

definition power_on :: "(nat \<Rightarrow> bus_op \<Rightarrow> reply) \<Rightarrow> (nat \<Rightarrow> uint8) \<Rightarrow> state" where
  "power_on b cells =
     \<lparr>OutArrayHR = map cells [0..<14], CTRL_Reg_start = False, Timer_ISR_start = False,
      bus = b, bus_log = [], uart = []\<rparr>"

definition main ::
  "bool list \<Rightarrow> (nat \<Rightarrow> bus_op \<Rightarrow> reply) \<Rightarrow> (nat \<Rightarrow> uint8) \<Rightarrow> state" where
  "main ticks b cells = run ticks (main_init (startup (power_on b cells)))"

section \<open>Observations on a run\<close>

text \<open>The frames among everything handed to the UART, in the order sent.\<close>

fun frames :: "uart_out list \<Rightarrow> uint8 list list" where
  "frames [] = []"
| "frames (PutString msg # out) = frames out"
| "frames (PutArray f # out) = f # frames out"

text \<open>The answer that the next transaction gets if it is the read of the status register.\<close>

definition status_reply :: "state \<Rightarrow> reply" where
  "status_reply s =
     bus s (length (bus_log s)) (ReadRegister LIS3DH_DEVICE_ADDRESS LIS3DH_STATUS_REG)"

text \<open>
  The answer to a burst read of two registers from \<open>reg\<close> issued after \<open>i\<close> further
  transactions.
\<close>

definition burst_reply :: "state \<Rightarrow> nat \<Rightarrow> uint8 \<Rightarrow> reply" where
  "burst_reply s i reg =
     bus s (length (bus_log s) + i) (ReadRegisterMulti LIS3DH_DEVICE_ADDRESS reg 2)"

text \<open>A frame array or frame of 14 bytes with the header and the footer in place.\<close>

definition well_framed :: "uint8 list \<Rightarrow> bool" where
  "well_framed f = (length f = 14 \<and> f ! 0 = 0xA0 \<and> f ! 13 = 0xC0)"

text \<open>The four frame bytes that lines 362 to 370 make of a successful burst read.\<close>

definition reply_bytes :: "reply \<Rightarrow> uint8 list" where
  "reply_bytes r = pack_bytes (physical_value (decode_sample (byte0 r) (byte1 r)))"

text \<open>The number of write transactions to register \<open>reg\<close> in a log.\<close>

fun is_write_to :: "uint8 \<Rightarrow> bus_op \<Rightarrow> bool" where
  "is_write_to reg (WriteRegister dev r v) = (r = reg)"
| "is_write_to reg (IsDeviceConnected dev) = False"
| "is_write_to reg (ReadRegister dev r) = False"
| "is_write_to reg (ReadRegisterMulti dev r n) = False"

definition write_count :: "uint8 \<Rightarrow> bus_op list \<Rightarrow> nat" where
  "write_count reg log = length (filter (is_write_to reg) log)"

section \<open>The formulas of the specification\<close>

text \<open>
  The decoding as the specification words it: \<open>raw16 = (high << 8) | low\<close>, read as a
  signed 16-bit value, shifted right arithmetically by 4.
\<close>

definition spec_decode :: "uint8 \<Rightarrow> uint8 \<Rightarrow> int16" where
  "spec_decode low high = signed_drop_bit 4 (push_bit 8 (ucast high) OR ucast low)"

text \<open>
  The conversion as the specification words it: \<open>raw_shifted * sensitivity * 9.80665\<close> in
  exact arithmetic, truncated toward zero.
\<close>

definition spec_physical :: "int \<Rightarrow> int \<Rightarrow> int" where
  "spec_physical sens raw_shifted =
     sgn raw_shifted * (\<bar>raw_shifted * sens * 980665\<bar> div 100000)"

text \<open>
  Modelled from the spec: the receiver's side of the frame layout, the four bytes from
  offset \<open>k\<close> read as a little-endian 32-bit value. main.c has no such function; it is
  the inverse that the specification's round-trip property names.
\<close>

definition unpack_le32 :: "uint8 list \<Rightarrow> nat \<Rightarrow> int32" where
  "unpack_le32 frame k =
     ucast (frame ! k) OR push_bit 8 (ucast (frame ! (k + 1)))
       OR push_bit 16 (ucast (frame ! (k + 2))) OR push_bit 24 (ucast (frame ! (k + 3)))"

text \<open>The four bytes of one axis inside a frame.\<close>

definition axis_bytes :: "nat \<Rightarrow> uint8 list \<Rightarrow> uint8 list" where
  "axis_bytes k frame = take 4 (drop k frame)"

section \<open>Devices for the worked examples\<close>

text \<open>
  A device at the accelerometer's address that acknowledges every transaction and whose
  registers read as \<open>regs\<close>, whatever is written to them. \<open>failing\<close> lists the
  transactions that return \<open>BusError\<close> instead.
\<close>

definition fixed_device :: "(uint8 \<Rightarrow> uint8) \<Rightarrow> bus_op list \<Rightarrow> nat \<Rightarrow> bus_op \<Rightarrow> reply" where
  "fixed_device regs failing n op =
     (if op \<in> set failing then \<lparr>result = BusError, byte0 = 0, byte1 = 0\<rparr>
      else
        case op of
          IsDeviceConnected dev \<Rightarrow>
            \<lparr>result = (if dev = LIS3DH_DEVICE_ADDRESS then NO_ERROR else NoAckError),
             byte0 = 0, byte1 = 0\<rparr>
        | ReadRegister dev reg \<Rightarrow> \<lparr>result = NO_ERROR, byte0 = regs reg, byte1 = 0\<rparr>
        | ReadRegisterMulti dev reg cnt \<Rightarrow>
            \<lparr>result = NO_ERROR, byte0 = regs reg, byte1 = regs (reg + 1)\<rparr>
        | WriteRegister dev reg v \<Rightarrow> \<lparr>result = NO_ERROR, byte0 = 0, byte1 = 0\<rparr>)"

text \<open>
  The registers of the specification's end-to-end scenario: status 0x07, X low 0x00 and
  high 0x40, Y zero, Z low 0xF0 and high 0xBF, each low byte at the lower address.
\<close>

definition scenario_regs :: "uint8 \<Rightarrow> uint8" where
  "scenario_regs reg =
     (if reg = 0x27 then 0x07
      else if reg = 0x28 then 0x00 else if reg = 0x29 then 0x40
      else if reg = 0x2C then 0xF0 else if reg = 0x2D then 0xBF
      else 0)"

text \<open>The same readings with the two bytes of every axis exchanged.\<close>

definition exchanged_regs :: "uint8 \<Rightarrow> uint8" where
  "exchanged_regs reg =
     (if reg = 0x27 then 0x07
      else if reg = 0x28 then 0x40 else if reg = 0x29 then 0x00
      else if reg = 0x2C then 0xBF else if reg = 0x2D then 0xF0
      else 0)"

text \<open>Registers that already hold the values start-up wants to configure.\<close>

definition configured_regs :: "uint8 \<Rightarrow> uint8" where
  "configured_regs reg =
     (if reg = 0x20 then 0x57 else if reg = 0x23 then 0x18 else 0)"

section \<open>Facts about the rounding model\<close>

lemma bitlen_gt: "n < 2 ^ bitlen n"
proof (induction n rule: bitlen.induct)
  case (1 n)
  show ?case
  proof (cases "n = 0")
    case True
    then show ?thesis by (simp add: bitlen.simps)
  next
    case False
    with 1 have "n div 2 < 2 ^ bitlen (n div 2)" by simp
    then have "n < 2 * 2 ^ bitlen (n div 2)" by linarith
    with False show ?thesis by (simp add: bitlen.simps [of n])
  qed
qed

lemma bitlen_le: "n < 2 ^ j \<Longrightarrow> bitlen n \<le> j"
proof (induction j arbitrary: n)
  case 0
  then show ?case by (simp add: bitlen.simps)
next
  case (Suc j)
  show ?case
  proof (cases "n = 0")
    case True
    then show ?thesis by (simp add: bitlen.simps)
  next
    case False
    from Suc.prems have "n div 2 < 2 ^ j" by simp
    from Suc.IH [OF this] False show ?thesis by (simp add: bitlen.simps [of n])
  qed
qed

lemma round_shift_ge: "a div 2 ^ sh \<le> round_shift a sh"
  by (simp add: round_shift_def Let_def)

lemma round_shift_le: "round_shift a sh \<le> a div 2 ^ sh + 1"
  by (simp add: round_shift_def Let_def)

lemma round_shift_exact: "a mod 2 ^ sh = 0 \<Longrightarrow> round_shift a sh = a div 2 ^ sh"
  by (simp add: round_shift_def Let_def)

lemma round_shift_brackets:
  assumes "sh \<le> j" and "k * 2 ^ j \<le> a" and "a \<le> (k + 1) * 2 ^ j"
  shows "k * 2 ^ (j - sh) \<le> round_shift a sh \<and> round_shift a sh \<le> (k + 1) * 2 ^ (j - sh)"
proof -
  have pw: "(2::nat) ^ j = 2 ^ (j - sh) * 2 ^ sh"
    using assms(1) by (simp add: power_add [symmetric])
  have "k * 2 ^ (j - sh) = (k * 2 ^ (j - sh) * 2 ^ sh) div 2 ^ sh"
    by simp
  also have "\<dots> \<le> a div 2 ^ sh"
    using assms(2) by (intro div_le_mono) (simp add: pw mult.assoc)
  finally have lower: "k * 2 ^ (j - sh) \<le> round_shift a sh"
    using round_shift_ge [of a sh] by linarith
  have upper: "round_shift a sh \<le> (k + 1) * 2 ^ (j - sh)"
  proof (cases "a = (k + 1) * 2 ^ j")
    case True
    have a: "a = (k + 1) * 2 ^ (j - sh) * 2 ^ sh"
      unfolding True by (simp only: pw mult.assoc)
    then have "a mod 2 ^ sh = 0" by simp
    then have "round_shift a sh = a div 2 ^ sh" by (rule round_shift_exact)
    also have "\<dots> = (k + 1) * 2 ^ (j - sh)" by (subst a) simp
    finally show ?thesis by simp
  next
    case False
    with assms(3) have "a < (k + 1) * 2 ^ j" by simp
    then have "a < (k + 1) * 2 ^ (j - sh) * 2 ^ sh"
      by (simp only: pw mult.assoc)
    then have "a div 2 ^ sh < (k + 1) * 2 ^ (j - sh)"
      by (simp add: less_mult_imp_div_less)
    with round_shift_le [of a sh] show ?thesis by linarith
  qed
  from lower upper show ?thesis ..
qed

lemma rne_brackets:
  assumes lo: "k * 2 ^ j \<le> a" and hi: "a \<le> (k + 1) * 2 ^ j" and sh: "bitlen a - p \<le> j"
  shows "\<exists>a'. rne p (int a, - int j) = (int a', - int (j - (bitlen a - p)))
            \<and> k * 2 ^ (j - (bitlen a - p)) \<le> a'
            \<and> a' \<le> (k + 1) * 2 ^ (j - (bitlen a - p))
            \<and> a' \<le> 2 ^ p"
proof (cases "bitlen a \<le> p")
  case True
  have "a < 2 ^ bitlen a" by (rule bitlen_gt)
  also have "\<dots> \<le> (2::nat) ^ p" using True by (simp add: power_increasing)
  finally have "a \<le> 2 ^ p" by simp
  with True lo hi show ?thesis by (simp add: rne_def)
next
  case False
  define s where "s = bitlen a - p"
  have s: "bitlen a = p + s" "0 < s" using False by (simp_all add: s_def)
  have "a \<noteq> 0"
  proof
    assume "a = 0"
    then have "bitlen a = 0" by (simp add: bitlen.simps)
    with False show False by simp
  qed
  then have sg: "sgn (int a) = 1" by simp
  have r: "rne p (int a, - int j) = (int (round_shift a s), - int (j - s))"
    using False sh sg by (simp add: rne_def s_def Let_def)
  have "a < 2 ^ p * 2 ^ s" using bitlen_gt [of a] by (simp add: s power_add)
  then have "a div 2 ^ s < 2 ^ p" by (simp add: less_mult_imp_div_less)
  with round_shift_le [of a s] have bound: "round_shift a s \<le> 2 ^ p" by linarith
  from round_shift_brackets [OF _ lo hi, of s] sh
  have "k * 2 ^ (j - s) \<le> round_shift a s \<and> round_shift a s \<le> (k + 1) * 2 ^ (j - s)"
    by (simp add: s_def)
  with r bound show ?thesis unfolding s_def by blast
qed

lemma round_shift_upper:
  assumes "0 < sh"
  shows "round_shift a sh * 2 ^ sh \<le> a + 2 ^ (sh - 1)"
proof -
  define q where "q = a div 2 ^ sh"
  define r where "r = a mod 2 ^ sh"
  define h :: nat where "h = 2 ^ (sh - 1)"
  have two: "(2::nat) ^ sh = 2 * h"
    using assms by (cases sh) (simp_all add: h_def)
  have a: "a = q * (2 * h) + r"
    using div_mult_mod_eq [of a "2 ^ sh"] by (simp add: q_def r_def two)
  have rs: "round_shift a sh = (if h < r \<or> (r = h \<and> odd q) then q + 1 else q)"
    by (simp add: round_shift_def Let_def q_def r_def h_def)
  show ?thesis
  proof (cases "h < r \<or> (r = h \<and> odd q)")
    case True
    then have "h \<le> r" by auto
    with True show ?thesis
      unfolding rs two h_def [symmetric] by (subst a) (simp add: algebra_simps)
  next
    case False
    then show ?thesis
      unfolding rs two h_def [symmetric] by (subst a) (simp add: algebra_simps)
  qed
qed

lemma rne_error:
  "\<exists>a'. rne p (int a, e) = (int a', e + int (bitlen a - p))
        \<and> a' * 2 ^ (bitlen a - p) \<le> a + 2 ^ (bitlen a - p) div 2"
proof (cases "bitlen a \<le> p")
  case True
  then show ?thesis by (simp add: rne_def)
next
  case False
  define s where "s = bitlen a - p"
  have s: "0 < s" using False by (simp add: s_def)
  have "a \<noteq> 0"
  proof
    assume "a = 0"
    then have "bitlen a = 0" by (simp add: bitlen.simps)
    with False show False by simp
  qed
  then have r: "rne p (int a, e) = (int (round_shift a s), e + int s)"
    using False by (simp add: rne_def s_def Let_def)
  have "(2::nat) ^ s div 2 = 2 ^ (s - 1)"
    using s by (cases s) simp_all
  with round_shift_upper [OF s, of a] r show ?thesis
    unfolding s_def by auto
qed

lemma trunc_nonneg: "trunc_toward_zero (int a, - int j) = int (a div 2 ^ j)"
proof (cases "j = 0")
  case True
  then show ?thesis by (simp add: trunc_toward_zero_def)
next
  case False
  then show ?thesis
    by (cases "a = 0") (simp_all add: trunc_toward_zero_def zdiv_int)
qed

lemma G_TO_ACC_value: "G_TO_ACC = (5520653160719109, - 49)"
  by (simp add: G_TO_ACC_def rne_def round_shift_def bitlen.simps Let_def)

lemma G_TO_ACC_nearest:
  "bitlen (nat (fst G_TO_ACC)) = 53
   \<and> 2 * \<bar>100000 * fst G_TO_ACC - 980665 * 2 ^ nat (- snd G_TO_ACC)\<bar> \<le> 100000"
  by (simp add: G_TO_ACC_value bitlen.simps)

lemma nondiv:
  assumes "0 < n" and "n \<le> 4096"
  shows "n * 980665 mod 100000 \<noteq> (0::nat)"
proof
  assume "n * 980665 mod 100000 = 0"
  then have "100000 dvd n * 980665" by (simp add: dvd_eq_mod_eq_0)
  then have "20000 * 5 dvd (n * 196133) * 5" by (simp add: mult.assoc)
  then have d: "20000 dvd n * 196133" by (simp add: mult.commute)
  have "coprime (20000::nat) 196133"
    by (simp add: coprime_iff_gcd_eq_1 gcd_nat.simps)
  with d have "20000 dvd n" by (simp add: coprime_dvd_mult_left_iff)
  with assms show False by (auto dest: dvd_imp_le)
qed

lemma start_brackets:
  fixes n :: nat
  assumes "0 < n" and "n \<le> 4096"
  shows "n * 980665 div 100000 * 2 ^ 49 \<le> n * 5520653160719109
       \<and> n * 5520653160719109 \<le> (n * 980665 div 100000 + 1) * 2 ^ 49"
proof -
  define k where "k = n * 980665 div 100000"
  define \<rho> where "\<rho> = n * 980665 mod 100000"
  have x: "n * 980665 = 100000 * k + \<rho>"
    unfolding k_def \<rho>_def by (rule mult_div_mod_eq [symmetric])
  have \<rho>: "0 < \<rho>" "\<rho> < 100000"
    using nondiv [OF assms] by (simp_all add: \<rho>_def)
  have "100000 * (n * 5520653160719109) + 32480 * n = (n * 980665) * 562949953421312"
    by simp
  then have e: "100000 * (n * 5520653160719109) + 32480 * n
      = 100000 * (k * 562949953421312) + \<rho> * 562949953421312"
    by (simp add: x algebra_simps)
  from e \<rho> assms have "k * 562949953421312 \<le> n * 5520653160719109"
    by linarith
  moreover from e \<rho> assms
  have "n * 5520653160719109 \<le> k * 562949953421312 + 562949953421312"
    by linarith
  ultimately show ?thesis by (simp add: k_def)
qed

lemma conv_pos_exact:
  assumes "0 < n" and "n \<le> 4096" and "n * 980665 mod 100000 \<le> 99600"
  shows "trunc_toward_zero (rne 24 (rne 53 (int n * 5520653160719109, - 49)))
           = int (n * 980665 div 100000)"
proof -
  define k where "k = n * 980665 div 100000"
  define \<rho> where "\<rho> = n * 980665 mod 100000"
  define a0 where "a0 = n * 5520653160719109"
  have b0: "k * 2 ^ 49 \<le> a0" "a0 \<le> (k + 1) * 2 ^ 49"
    using start_brackets [OF assms(1,2)] by (simp_all add: k_def a0_def)
  have "a0 < 2 ^ 65" using assms by (simp add: a0_def)
  then have l0: "bitlen a0 \<le> 65" by (rule bitlen_le)
  define s1 where "s1 = bitlen a0 - 53"
  have s1: "s1 \<le> 12" using l0 by (simp add: s1_def)
  then have s0: "bitlen a0 - 53 \<le> 49" by (simp add: s1_def)
  define j1 where "j1 = 49 - s1"
  from rne_brackets [OF b0 s0] obtain a1 where
    r1: "rne 53 (int a0, - int 49) = (int a1, - int j1)"
    and b1: "k * 2 ^ j1 \<le> a1" "a1 \<le> (k + 1) * 2 ^ j1"
    and u1: "a1 \<le> 2 ^ 53"
    unfolding j1_def s1_def by blast
  from rne_error [of 53 a0 "- int 49"] r1
  have e1: "a1 * 2 ^ s1 \<le> a0 + 2 ^ s1 div 2"
    unfolding s1_def by auto
  have "a1 < 2 ^ 54" using u1 by simp
  then have l1: "bitlen a1 \<le> 54" by (rule bitlen_le)
  define s2 where "s2 = bitlen a1 - 24"
  have s2: "s2 \<le> 30" using l1 by (simp add: s2_def)
  have s12: "bitlen a1 - 24 \<le> j1" using s1 s2 by (simp add: j1_def s2_def)
  define j2 where "j2 = j1 - s2"
  from rne_brackets [OF b1 s12] obtain a2 where
    r2: "rne 24 (int a1, - int j1) = (int a2, - int j2)"
    and b2: "k * 2 ^ j2 \<le> a2"
    unfolding j2_def s2_def by blast
  from rne_error [of 24 a1 "- int j1"] r2
  have e2: "a2 * 2 ^ s2 \<le> a1 + 2 ^ s2 div 2"
    unfolding s2_def by auto
  have p1: "(2::nat) ^ s1 \<le> 2 ^ 12" using s1 by (rule power_increasing) simp
  have p2: "(2::nat) ^ s2 \<le> 2 ^ 30" using s2 by (rule power_increasing) simp
  have h1: "(2::nat) ^ s1 div 2 \<le> 2048" using p1 by simp
  have h2: "(2::nat) ^ s2 div 2 \<le> 536870912" using p2 by simp
  have "a2 * 2 ^ s2 * 2 ^ s1 \<le> (a1 + 2 ^ s2 div 2) * 2 ^ s1"
    using e2 by (rule mult_le_mono1)
  also have "\<dots> = a1 * 2 ^ s1 + (2 ^ s2 div 2) * 2 ^ s1"
    by (simp add: algebra_simps)
  also have "\<dots> \<le> (a0 + 2 ^ s1 div 2) + 536870912 * 2 ^ 12"
    using e1 h2 p1 by (intro add_mono mult_mono) simp_all
  also have "\<dots> \<le> a0 + 2048 + 2199023255552"
    using h1 by simp
  finally have "a2 * 2 ^ s2 * 2 ^ s1 \<le> a0 + 2199023257600" by simp
  then have up: "a2 * (2 ^ s2 * 2 ^ s1) \<le> a0 + 2199023257600"
    by (simp only: mult.assoc)
  have x: "n * 980665 = 100000 * k + \<rho>"
    unfolding k_def \<rho>_def by (rule mult_div_mod_eq [symmetric])
  have "100000 * a0 + 32480 * n = (n * 980665) * 562949953421312"
    by (simp add: a0_def)
  then have e: "100000 * a0 + 32480 * n
      = 100000 * (k * 562949953421312) + \<rho> * 562949953421312"
    by (simp add: x algebra_simps)
  have "\<rho> \<le> 99600" using assms(3) by (simp add: \<rho>_def)
  with e have a0_up: "a0 + 2199023257600 < k * 562949953421312 + 562949953421312"
    by linarith
  have pw: "(2::nat) ^ j2 * (2 ^ s2 * 2 ^ s1) = 562949953421312"
    using s1 s2 by (simp add: power_add [symmetric] j2_def j1_def)
  have "a2 < (k + 1) * 2 ^ j2"
  proof (rule ccontr)
    assume "\<not> a2 < (k + 1) * 2 ^ j2"
    then have "(k + 1) * 2 ^ j2 \<le> a2" by simp
    then have "(k + 1) * 2 ^ j2 * (2 ^ s2 * 2 ^ s1) \<le> a2 * (2 ^ s2 * 2 ^ s1)"
      by (rule mult_le_mono1)
    then have "(k + 1) * (2 ^ j2 * (2 ^ s2 * 2 ^ s1)) \<le> a2 * (2 ^ s2 * 2 ^ s1)"
      by (simp only: mult.assoc)
    then have "(k + 1) * 562949953421312 \<le> a2 * (2 ^ s2 * 2 ^ s1)"
      by (simp only: pw)
    with up a0_up show False by simp
  qed
  then have "a2 div 2 ^ j2 < k + 1"
    by (simp add: less_mult_imp_div_less)
  moreover have "k \<le> a2 div 2 ^ j2"
  proof -
    have "k = k * 2 ^ j2 div 2 ^ j2" by simp
    also have "\<dots> \<le> a2 div 2 ^ j2" using b2 by (rule div_le_mono)
    finally show ?thesis .
  qed
  ultimately have d: "a2 div 2 ^ j2 = k" by simp
  have "(int n * 5520653160719109, - 49) = (int a0, - int 49)"
    by (simp add: a0_def)
  then have "trunc_toward_zero (rne 24 (rne 53 (int n * 5520653160719109, - 49)))
      = trunc_toward_zero (int a2, - int j2)"
    by (simp only: r1 r2)
  then show ?thesis by (simp add: trunc_nonneg d k_def)
qed

lemma near_candidates:
  "\<forall>c \<in> set [9961..<10000].
      2048 < 4797 * c mod 10000
      \<or> 4797 * c mod 10000 \<in> {75, 406, 481, 812, 887, 1218, 1293, 1624, 1699, 2030}"
  by simp

lemma near_next_integer_cases:
  fixes r :: nat
  assumes "0 < r" and "r \<le> 2048" and "99600 < 2 * r * 980665 mod 100000"
  shows "r \<in> {75, 406, 481, 812, 887, 1218, 1293, 1624, 1699, 2030}"
proof -
  define c where "c = 196133 * r mod 10000"
  have "2 * r * 980665 mod 100000 = 10 * (196133 * r) mod (10 * 10000)"
    by (simp add: algebra_simps)
  also have "\<dots> = 10 * c"
    unfolding c_def by (rule mult_mod_right [symmetric])
  finally have "99600 < 10 * c" using assms(3) by simp
  moreover have "c < 10000" by (simp add: c_def)
  ultimately have c: "c \<in> set [9961..<10000]"
    unfolding set_upt by simp
  have "4797 * c mod 10000 = 4797 * (196133 * r) mod 10000"
    unfolding c_def by (rule mod_mult_right_eq)
  also have "\<dots> = 940850001 * r mod 10000"
    by simp
  also have "\<dots> = (940850001 mod 10000) * r mod 10000"
    by (rule mod_mult_left_eq [symmetric])
  also have "\<dots> = r" using assms(2) by simp
  finally have "4797 * c mod 10000 = r" .
  with near_candidates [THEN bspec, OF c] assms(2) show ?thesis
    by (simp del: insert_iff)
qed

lemma conv_exact_nat:
  fixes r :: nat
  assumes "0 < r" and "r \<le> 2048"
  shows "trunc_toward_zero (rne 24 (rne 53 (int (2 * r) * 5520653160719109, - 49)))
           = int (2 * r * 980665 div 100000)
             + (if r \<in> {406, 812, 1218, 1624, 2030} then 1 else 0)"
proof (cases "99600 < 2 * r * 980665 mod 100000")
  case True
  from near_next_integer_cases [OF assms True]
  consider "r = 75" | "r = 406" | "r = 481" | "r = 812" | "r = 887"
    | "r = 1218" | "r = 1293" | "r = 1624" | "r = 1699" | "r = 2030"
    by auto
  then show ?thesis
    by cases
      (simp_all add: rne_def round_shift_def bitlen.simps Let_def trunc_toward_zero_def)
next
  case False
  then have "r \<notin> {406, 812, 1218, 1624, 2030}" by auto
  moreover have "trunc_toward_zero (rne 24 (rne 53 (int (2 * r) * 5520653160719109, - 49)))
      = int (2 * r * 980665 div 100000)"
    using assms False by (intro conv_pos_exact) simp_all
  ultimately show ?thesis by simp
qed

lemma rne_neg: "rne p (- m, e) = (case rne p (m, e) of (m', e') \<Rightarrow> (- m', e'))"
  by (simp add: rne_def Let_def)

lemma trunc_neg: "trunc_toward_zero (- m, e) = - trunc_toward_zero (m, e)"
  by (simp add: trunc_toward_zero_def)

lemma conv_neg:
  "trunc_toward_zero (rne 24 (rne 53 (- m, e))) = - trunc_toward_zero (rne 24 (rne 53 (m, e)))"
proof -
  obtain m1 e1 where r1: "rne 53 (m, e) = (m1, e1)" by (cases "rne 53 (m, e)")
  obtain m2 e2 where r2: "rne 24 (m1, e1) = (m2, e2)" by (cases "rne 24 (m1, e1)")
  show ?thesis by (simp add: rne_neg [of 53] r1 rne_neg [of 24] r2 trunc_neg)
qed

lemma to_acceleration_eq:
  "to_acceleration OutTemp =
     word_of_int (trunc_toward_zero (rne 24 (rne 53 (sint OutTemp * 5520653160719109, - 49))))"
  by (simp add: to_acceleration_def f2i_def d2f_def dmul_def i2d_def G_TO_ACC_value)

lemma apply_sensitivity_sint:
  assumes "- 16384 \<le> sint raw" and "sint raw < 16384"
  shows "sint (apply_sensitivity raw) = 2 * sint raw"
proof -
  have "sint (raw * 2) = signed_take_bit 15 (sint raw * 2)"
    by (simp add: sint_word_ariths)
  also have "\<dots> = sint raw * 2"
    using assms by (intro signed_take_bit_int_eq_self) simp_all
  finally show ?thesis by (simp add: apply_sensitivity_def LIS3DH_SENS_4G_def)
qed


lemma physical_value_exact:
  assumes "- 2048 \<le> sint raw_shifted" and "sint raw_shifted \<le> 2047"
  shows "sint (physical_value raw_shifted)
           = spec_physical 2 (sint raw_shifted)
             + (if \<bar>sint raw_shifted\<bar> \<in> {406, 812, 1218, 1624, 2030}
                then sgn (sint raw_shifted) else 0)"
proof -
  define r where "r = sint raw_shifted"
  define t where "t = trunc_toward_zero (rne 24 (rne 53 (2 * r * 5520653160719109, - 49)))"
  define m where "m = nat \<bar>r\<bar>"
  have s: "sint (apply_sensitivity raw_shifted) = 2 * r"
    using assms by (simp add: apply_sensitivity_sint r_def)
  have pv: "physical_value raw_shifted = word_of_int t"
    by (simp add: physical_value_def to_acceleration_eq s t_def)
  have range: "- 2048 \<le> r" "r \<le> 2047" using assms by (simp_all add: r_def)
  then have m: "m \<le> 2048" "int m = \<bar>r\<bar>" by (simp_all add: m_def)
  have "2 * m * 980665 div 100000 \<le> 2 * 2048 * 980665 div 100000"
    using m(1) by (intro div_le_mono mult_le_mono1 mult_le_mono2)
  then have kb: "2 * m * 980665 div 100000 \<le> 40169" by simp
  have sp: "spec_physical 2 r = sgn r * int (2 * m * 980665 div 100000)"
  proof -
    have "\<bar>r * 2 * 980665\<bar> = int (2 * m * 980665)"
      by (simp add: m(2) abs_mult)
    then show ?thesis
      unfolding spec_physical_def by (simp only: zdiv_int) simp
  qed
  have mem: "(\<bar>r\<bar> \<in> {406, 812, 1218, 1624, 2030}) = (m \<in> {406, 812, 1218, 1624, 2030})"
    using m(2) by (auto simp: m_def)
  have conv: "trunc_toward_zero (rne 24 (rne 53 (int (2 * m) * 5520653160719109, - 49)))
        = int (2 * m * 980665 div 100000) + (if m \<in> {406, 812, 1218, 1624, 2030} then 1 else 0)"
    if "0 < m"
    using that m(1) by (rule conv_exact_nat)
  consider (zero) "r = 0" | (pos) "0 < r" | (neg) "r < 0" by linarith
  then have res: "t = spec_physical 2 r + (if \<bar>r\<bar> \<in> {406, 812, 1218, 1624, 2030} then sgn r else 0)"
  proof cases
    case zero
    then show ?thesis
      by (simp add: t_def spec_physical_def rne_def bitlen.simps trunc_toward_zero_def)
  next
    case pos
    then have "0 < m" "2 * r = int (2 * m)" using m(2) by simp_all
    with conv pos show ?thesis
      unfolding t_def sp mem by simp
  next
    case neg
    then have pm: "0 < m" "2 * r * 5520653160719109 = - (int (2 * m) * 5520653160719109)"
      using m(2) by simp_all
    have "t = - trunc_toward_zero (rne 24 (rne 53 (int (2 * m) * 5520653160719109, - 49)))"
      unfolding t_def pm(2) by (rule conv_neg)
    with conv [OF pm(1)] neg show ?thesis
      unfolding sp mem by simp
  qed
  have "\<bar>t\<bar> \<le> 50000"
  proof -
    define d where "d = (if \<bar>r\<bar> \<in> {406, 812, 1218, 1624, 2030} then sgn r else 0)"
    have "\<bar>spec_physical 2 r\<bar> \<le> 40169"
      unfolding sp using kb by (simp add: abs_mult abs_sgn_eq)
    moreover have "\<bar>d\<bar> \<le> 1" by (simp add: d_def abs_sgn_eq)
    moreover have "t = spec_physical 2 r + d" by (simp only: res d_def)
    ultimately show ?thesis by linarith
  qed
  then have "sint (word_of_int t :: 32 word) = t"
    by (simp add: sint_sbintrunc' signed_take_bit_int_eq_self)
  with res show ?thesis by (simp add: pv r_def)
qed

lemmas conv_defs =
  physical_value_def to_acceleration_eq apply_sensitivity_def LIS3DH_SENS_4G_def
  rne_def round_shift_def bitlen.simps Let_def trunc_toward_zero_def

lemma physical_value_1024: "physical_value 1024 = 20084"
  by (simp add: conv_defs)

lemma physical_value_406: "physical_value 406 = 7963"
  by (simp add: conv_defs)

section \<open>Facts about the program\<close>

lemmas reg_defs =
  LIS3DH_DEVICE_ADDRESS_def LIS3DH_WHO_AM_I_REG_ADDR_def LIS3DH_STATUS_REG_def
  LIS3DH_STATUS_REG_NEW_VALUES_def LIS3DH_CTRL_REG1_def LIS3DH_100Hz_CTRL_REG1_def
  LIS3DH_TEMP_CFG_REG_def LIS3DH_TEMP_CFG_REG_NOT_ACTIVE_def LIS3DH_CTRL_REG4_def
  LIS3DH_CTRL_REG4_4G_HIGH_def LIS3DH_OUT_X_L_def LIS3DH_OUT_Y_L_def LIS3DH_OUT_Z_L_def

lemmas bus_defs =
  transact_def I2C_Peripheral_IsDeviceConnected_def I2C_Peripheral_ReadRegister_def
  I2C_Peripheral_ReadRegisterMulti_def I2C_Peripheral_WriteRegister_def
  UART_Debug_PutString_def UART_Debug_PutArray_def report_def

subsection \<open>Frames and the frame array\<close>

lemma frames_append [simp]: "frames (xs @ ys) = frames xs @ frames ys"
  by (induction xs rule: frames.induct) simp_all

lemma length_store_axis [simp]: "length (store_axis k v out) = length out"
  by (simp add: store_axis_def pack_bytes_def)

lemma length_convert_axis [simp]: "length (convert_axis k d0 d1 out) = length out"
  by (simp add: convert_axis_def)

lemma nth_store_axis_outside:
  "i < k \<or> k + 3 < i \<Longrightarrow> store_axis k v out ! i = out ! i"
  by (auto simp: store_axis_def pack_bytes_def)

lemma axis_bytes_store_same:
  assumes "k + 4 \<le> length out"
  shows "axis_bytes k (store_axis k v out) = pack_bytes v"
proof (rule nth_equalityI)
  show "length (axis_bytes k (store_axis k v out)) = length (pack_bytes v)"
    using assms by (simp add: axis_bytes_def pack_bytes_def)
next
  fix i
  assume "i < length (axis_bytes k (store_axis k v out))"
  then have "i < 4" by (simp add: axis_bytes_def)
  then consider "i = 0" | "i = 1" | "i = 2" | "i = 3" by linarith
  then show "axis_bytes k (store_axis k v out) ! i = pack_bytes v ! i"
    using assms
    by cases (simp_all add: axis_bytes_def store_axis_def pack_bytes_def nth_list_update)
qed

lemma axis_bytes_store_other:
  assumes "k' + 4 \<le> k \<or> k + 4 \<le> k'"
  shows "axis_bytes k' (store_axis k v out) = axis_bytes k' out"
proof (rule nth_equalityI)
  show "length (axis_bytes k' (store_axis k v out)) = length (axis_bytes k' out)"
    by (simp add: axis_bytes_def)
next
  fix i
  assume "i < length (axis_bytes k' (store_axis k v out))"
  then have i: "i < 4" "k' + i < length out" by (auto simp: axis_bytes_def)
  with assms have "k' + i < k \<or> k + 3 < k' + i" by linarith
  then have "store_axis k v out ! (k' + i) = out ! (k' + i)"
    by (rule nth_store_axis_outside)
  with i show "axis_bytes k' (store_axis k v out) ! i = axis_bytes k' out ! i"
    by (simp add: axis_bytes_def)
qed

subsection \<open>The steps of one loop iteration\<close>

lemma poll_status_simps [simp]:
  "Timer_ISR_start (poll_status s) = Timer_ISR_start s"
  "OutArrayHR (poll_status s) = OutArrayHR s"
  "uart (poll_status s) = uart s"
  "bus (poll_status s) = bus s"
  "bus_log (poll_status s) = bus_log s @ [ReadRegister LIS3DH_DEVICE_ADDRESS LIS3DH_STATUS_REG]"
  by (simp_all add: poll_status_def bus_defs)

lemma poll_status_flag:
  "CTRL_Reg_start (poll_status s) =
     (CTRL_Reg_start s \<or>
      (result (status_reply s) = NO_ERROR \<and> byte0 (status_reply s) AND 0x07 = 0x07))"
  by (simp add: poll_status_def bus_defs status_reply_def LIS3DH_STATUS_REG_NEW_VALUES_def)

lemma read_axis_simps [simp]:
  "Timer_ISR_start (read_axis reg k s) = Timer_ISR_start s"
  "CTRL_Reg_start (read_axis reg k s) = CTRL_Reg_start s"
  "uart (read_axis reg k s) = uart s"
  "bus (read_axis reg k s) = bus s"
  "bus_log (read_axis reg k s) = bus_log s @ [ReadRegisterMulti LIS3DH_DEVICE_ADDRESS reg 2]"
  "length (OutArrayHR (read_axis reg k s)) = length (OutArrayHR s)"
  by (simp_all add: read_axis_def bus_defs)

lemma read_axis_frame:
  "OutArrayHR (read_axis reg k s) =
     (if result (burst_reply s 0 reg) = NO_ERROR
      then convert_axis k (byte0 (burst_reply s 0 reg)) (byte1 (burst_reply s 0 reg)) (OutArrayHR s)
      else OutArrayHR s)"
  by (simp add: read_axis_def bus_defs burst_reply_def)

lemma burst_reply_read_axis [simp]:
  "burst_reply (read_axis reg' k s) i reg = burst_reply s (Suc i) reg"
  by (simp add: burst_reply_def)

lemma burst_reply_poll_status [simp]:
  "burst_reply (poll_status s) i reg = burst_reply s (Suc i) reg"
  by (simp add: burst_reply_def)

lemma sample_block_simps [simp]:
  "bus (sample_block s) = bus s"
  "CTRL_Reg_start (sample_block s) = CTRL_Reg_start s"
  "Timer_ISR_start (sample_block s) = Timer_ISR_start s"
  "bus_log (sample_block s) = bus_log s @
     [ReadRegisterMulti LIS3DH_DEVICE_ADDRESS LIS3DH_OUT_X_L 2,
      ReadRegisterMulti LIS3DH_DEVICE_ADDRESS LIS3DH_OUT_Y_L 2,
      ReadRegisterMulti LIS3DH_DEVICE_ADDRESS LIS3DH_OUT_Z_L 2]"
  "uart (sample_block s) = uart s @ [PutArray (take 14 (OutArrayHR (sample_block s)))]"
  "length (OutArrayHR (sample_block s)) = length (OutArrayHR s)"
  by (simp_all add: sample_block_def Let_def UART_Debug_PutArray_def)

lemma read_axis_nth_outside:
  "i < k \<or> k + 3 < i \<Longrightarrow> OutArrayHR (read_axis reg k s) ! i = OutArrayHR s ! i"
  by (simp add: read_axis_frame convert_axis_def nth_store_axis_outside)

lemma sample_block_header:
  "OutArrayHR (sample_block s) ! 0 = OutArrayHR s ! 0"
  "OutArrayHR (sample_block s) ! 13 = OutArrayHR s ! 13"
  by (simp_all add: sample_block_def Let_def UART_Debug_PutArray_def read_axis_nth_outside)


subsection \<open>Start-up leaves the frame array, the bus and the frames alone\<close>

lemma probe_keeps:
  "OutArrayHR (probe i s) = OutArrayHR s"
  "bus (probe i s) = bus s"
  "frames (uart (probe i s)) = frames (uart s)"
  by (simp_all add: probe_def bus_defs)

lemma fold_probe_keeps:
  "OutArrayHR (fold probe is s) = OutArrayHR s
   \<and> bus (fold probe is s) = bus s
   \<and> frames (uart (fold probe is s)) = frames (uart s)"
  by (induction "is" arbitrary: s) (simp_all add: probe_keeps)

lemma startup_step_keeps [simp]:
  "OutArrayHR (bus_scan s) = OutArrayHR s"
  "bus (bus_scan s) = bus s"
  "frames (uart (bus_scan s)) = frames (uart s)"
  "OutArrayHR (read_who_am_i s) = OutArrayHR s"
  "bus (read_who_am_i s) = bus s"
  "frames (uart (read_who_am_i s)) = frames (uart s)"
  "OutArrayHR (read_status_register s) = OutArrayHR s"
  "bus (read_status_register s) = bus s"
  "frames (uart (read_status_register s)) = frames (uart s)"
  "OutArrayHR (configure_ctrl_reg1 s) = OutArrayHR s"
  "bus (configure_ctrl_reg1 s) = bus s"
  "frames (uart (configure_ctrl_reg1 s)) = frames (uart s)"
  "OutArrayHR (configure_temp_cfg_reg s) = OutArrayHR s"
  "bus (configure_temp_cfg_reg s) = bus s"
  "frames (uart (configure_temp_cfg_reg s)) = frames (uart s)"
  "OutArrayHR (configure_ctrl_reg4 s) = OutArrayHR s"
  "bus (configure_ctrl_reg4 s) = bus s"
  "frames (uart (configure_ctrl_reg4 s)) = frames (uart s)"
  by (simp_all add: bus_scan_def fold_probe_keeps read_who_am_i_def read_status_register_def
        configure_ctrl_reg1_def configure_temp_cfg_reg_def configure_ctrl_reg4_def
        bus_defs Let_def)

lemma startup_keeps [simp]:
  "OutArrayHR (startup s) = OutArrayHR s"
  "bus (startup s) = bus s"
  "frames (uart (startup s)) = frames (uart s)"
  by (simp_all add: startup_def)

subsection \<open>The loop as a whole\<close>

lemma Custom_Timer_ISR_simps [simp]:
  "Timer_ISR_start (Custom_Timer_ISR s) = True"
  "CTRL_Reg_start (Custom_Timer_ISR s) = CTRL_Reg_start s"
  "OutArrayHR (Custom_Timer_ISR s) = OutArrayHR s"
  "bus (Custom_Timer_ISR s) = bus s"
  "bus_log (Custom_Timer_ISR s) = bus_log s"
  "uart (Custom_Timer_ISR s) = uart s"
  "status_reply (Custom_Timer_ISR s) = status_reply s"
  "burst_reply (Custom_Timer_ISR s) i reg = burst_reply s i reg"
  by (simp_all add: Custom_Timer_ISR_def status_reply_def burst_reply_def)

lemma loop_body_simps [simp]:
  "CTRL_Reg_start (loop_body s) = False"
  "Timer_ISR_start (loop_body s) = False"
  "bus (loop_body s) = bus s"
  "length (OutArrayHR (loop_body s)) = length (OutArrayHR s)"
  "OutArrayHR (loop_body s) ! 0 = OutArrayHR s ! 0"
  "OutArrayHR (loop_body s) ! 13 = OutArrayHR s ! 13"
  by (simp_all add: loop_body_def Let_def sample_block_header)

lemma loop_iteration_simps [simp]:
  "CTRL_Reg_start (loop_iteration tick s) = False"
  "Timer_ISR_start (loop_iteration tick s) = False"
  "bus (loop_iteration tick s) = bus s"
  "length (OutArrayHR (loop_iteration tick s)) = length (OutArrayHR s)"
  "OutArrayHR (loop_iteration tick s) ! 0 = OutArrayHR s ! 0"
  "OutArrayHR (loop_iteration tick s) ! 13 = OutArrayHR s ! 13"
  by (simp_all add: loop_iteration_def Custom_Timer_ISR_def)

lemma frames_loop_body:
  "frames (uart (loop_body s)) =
     frames (uart s) @
       (if CTRL_Reg_start (poll_status s) \<and> Timer_ISR_start s
        then [take 14 (OutArrayHR (loop_body s))] else [])"
  by (simp add: loop_body_def Let_def)

lemma frames_loop_iteration:
  "frames (uart (loop_iteration tick s)) = frames (uart s)
   \<or> frames (uart (loop_iteration tick s))
        = frames (uart s) @ [take 14 (OutArrayHR (loop_iteration tick s))]"
  by (simp add: loop_iteration_def frames_loop_body Custom_Timer_ISR_def)

lemma run_simps [simp]:
  "bus (run ticks s) = bus s"
  "length (OutArrayHR (run ticks s)) = length (OutArrayHR s)"
  "OutArrayHR (run ticks s) ! 0 = OutArrayHR s ! 0"
  "OutArrayHR (run ticks s) ! 13 = OutArrayHR s ! 13"
  by (induction ticks arbitrary: s) simp_all

lemma run_clears_flag: "\<not> CTRL_Reg_start s \<Longrightarrow> \<not> CTRL_Reg_start (run ticks s)"
  by (induction ticks arbitrary: s) simp_all

lemma loop_iteration_well_framed:
  assumes "well_framed (OutArrayHR s)" and "list_all well_framed (frames (uart s))"
  shows "well_framed (OutArrayHR (loop_iteration tick s))
       \<and> list_all well_framed (frames (uart (loop_iteration tick s)))"
proof -
  have a: "well_framed (OutArrayHR (loop_iteration tick s))"
    using assms(1) by (simp add: well_framed_def)
  then have "well_framed (take 14 (OutArrayHR (loop_iteration tick s)))"
    by (simp add: well_framed_def)
  with assms(2) frames_loop_iteration [of tick s]
  have "list_all well_framed (frames (uart (loop_iteration tick s)))"
    by auto
  with a show ?thesis ..
qed

lemma run_well_framed:
  "well_framed (OutArrayHR s) \<Longrightarrow> list_all well_framed (frames (uart s)) \<Longrightarrow>
   well_framed (OutArrayHR (run ticks s)) \<and> list_all well_framed (frames (uart (run ticks s)))"
proof (induction ticks arbitrary: s)
  case Nil
  then show ?case by simp
next
  case (Cons tick ticks)
  from loop_iteration_well_framed [OF Cons.prems]
  show ?case by (simp add: Cons.IH)
qed

lemma main_init_simps [simp]:
  "OutArrayHR (main_init s) = (OutArrayHR s)[0 := 0xA0, 13 := 0xC0]"
  "CTRL_Reg_start (main_init s) = False"
  "Timer_ISR_start (main_init s) = False"
  "bus (main_init s) = bus s"
  "bus_log (main_init s) = bus_log s"
  "uart (main_init s) = uart s"
  by (simp_all add: main_init_def)

lemma power_on_simps [simp]:
  "length (OutArrayHR (power_on b cells)) = 14"
  "bus (power_on b cells) = b"
  "bus_log (power_on b cells) = []"
  "uart (power_on b cells) = []"
  by (simp_all add: power_on_def)

lemma loop_entry_well_framed:
  "well_framed (OutArrayHR (main_init (startup (power_on b cells))))
   \<and> list_all well_framed (frames (uart (main_init (startup (power_on b cells)))))"
  by (simp add: well_framed_def nth_list_update)

lemma main_simps [simp]:
  "bus (main ticks b cells) = b"
  "length (OutArrayHR (main ticks b cells)) = 14"
  "OutArrayHR (main ticks b cells) ! 0 = 0xA0"
  "OutArrayHR (main ticks b cells) ! 13 = 0xC0"
  "CTRL_Reg_start (main ticks b cells) = False"
  "frames (uart (main [] b cells)) = []"
  using run_clears_flag [of "main_init (startup (power_on b cells))" ticks]
  by (simp_all add: main_def nth_list_update)

lemma main_Cons: "main [tick] b cells = loop_iteration tick (main [] b cells)"
  by (simp add: main_def)

subsection \<open>The frame after a gated iteration\<close>

lemma sample_block_frame:
  "OutArrayHR (sample_block s) =
     (let rx = burst_reply s 0 LIS3DH_OUT_X_L;
          ry = burst_reply s 1 LIS3DH_OUT_Y_L;
          rz = burst_reply s 2 LIS3DH_OUT_Z_L;
          f1 = (if result rx = NO_ERROR
                then store_axis 1 (physical_value (decode_sample (byte0 rx) (byte1 rx)))
                       (OutArrayHR s)
                else OutArrayHR s);
          f2 = (if result ry = NO_ERROR
                then store_axis 5 (physical_value (decode_sample (byte0 ry) (byte1 ry))) f1
                else f1)
      in if result rz = NO_ERROR
         then store_axis 9 (physical_value (decode_sample (byte0 rz) (byte1 rz))) f2
         else f2)"
  by (simp add: sample_block_def Let_def UART_Debug_PutArray_def read_axis_frame
        convert_axis_def numeral_2_eq_2)

lemma sample_block_axes:
  assumes "length (OutArrayHR s) = 14"
  shows "axis_bytes 1 (OutArrayHR (sample_block s)) =
           (if result (burst_reply s 0 LIS3DH_OUT_X_L) = NO_ERROR
            then reply_bytes (burst_reply s 0 LIS3DH_OUT_X_L)
            else axis_bytes 1 (OutArrayHR s))"
    and "axis_bytes 5 (OutArrayHR (sample_block s)) =
           (if result (burst_reply s 1 LIS3DH_OUT_Y_L) = NO_ERROR
            then reply_bytes (burst_reply s 1 LIS3DH_OUT_Y_L)
            else axis_bytes 5 (OutArrayHR s))"
    and "axis_bytes 9 (OutArrayHR (sample_block s)) =
           (if result (burst_reply s 2 LIS3DH_OUT_Z_L) = NO_ERROR
            then reply_bytes (burst_reply s 2 LIS3DH_OUT_Z_L)
            else axis_bytes 9 (OutArrayHR s))"
  using assms
  by (simp_all add: sample_block_frame Let_def reply_bytes_def
        axis_bytes_store_other axis_bytes_store_same)

lemma gated_loop_body:
  assumes "CTRL_Reg_start (poll_status s)" and "Timer_ISR_start s"
  shows "loop_body s =
           (sample_block (poll_status s))\<lparr>CTRL_Reg_start := False, Timer_ISR_start := False\<rparr>"
  using assms by (simp add: loop_body_def Let_def)

lemma gated_loop_body_axes:
  assumes "length (OutArrayHR s) = 14"
    and "CTRL_Reg_start (poll_status s)" and "Timer_ISR_start s"
  shows "axis_bytes 1 (OutArrayHR (loop_body s)) =
           (if result (burst_reply s 1 LIS3DH_OUT_X_L) = NO_ERROR
            then reply_bytes (burst_reply s 1 LIS3DH_OUT_X_L)
            else axis_bytes 1 (OutArrayHR s))
       \<and> axis_bytes 5 (OutArrayHR (loop_body s)) =
           (if result (burst_reply s 2 LIS3DH_OUT_Y_L) = NO_ERROR
            then reply_bytes (burst_reply s 2 LIS3DH_OUT_Y_L)
            else axis_bytes 5 (OutArrayHR s))
       \<and> axis_bytes 9 (OutArrayHR (loop_body s)) =
           (if result (burst_reply s 3 LIS3DH_OUT_Z_L) = NO_ERROR
            then reply_bytes (burst_reply s 3 LIS3DH_OUT_Z_L)
            else axis_bytes 9 (OutArrayHR s))
       \<and> uart (loop_body s) = uart s @ [PutArray (OutArrayHR (loop_body s))]
       \<and> length (OutArrayHR (loop_body s)) = 14"
proof -
  have len: "length (OutArrayHR (poll_status s)) = 14" using assms(1) by simp
  show ?thesis
    using sample_block_axes [OF len] assms(1)
    by (simp add: gated_loop_body [OF assms(2,3)] numeral_3_eq_3 numeral_2_eq_2)
qed

lemma frame_from_parts:
  assumes "length f = 14"
  shows "f = f ! 0 # axis_bytes 1 f @ axis_bytes 5 f @ axis_bytes 9 f @ [f ! 13]"
proof -
  from assms obtain a0 a1 a2 a3 a4 a5 a6 a7 a8 a9 a10 a11 a12 a13
    where "f = [a0, a1, a2, a3, a4, a5, a6, a7, a8, a9, a10, a11, a12, a13]"
    by (auto simp: numeral_eq_Suc length_Suc_conv)
  then show ?thesis by (simp add: axis_bytes_def)
qed

lemma gated_iteration_frame:
  assumes "well_framed (OutArrayHR s)"
    and "result (status_reply s) = NO_ERROR"
    and "byte0 (status_reply s) AND 0x07 = 0x07"
    and "result (burst_reply s 1 LIS3DH_OUT_X_L) = NO_ERROR"
    and "result (burst_reply s 2 LIS3DH_OUT_Y_L) = NO_ERROR"
    and "result (burst_reply s 3 LIS3DH_OUT_Z_L) = NO_ERROR"
  shows "frames (uart (loop_iteration True s)) =
           frames (uart s) @
             [0xA0 # reply_bytes (burst_reply s 1 LIS3DH_OUT_X_L)
                @ reply_bytes (burst_reply s 2 LIS3DH_OUT_Y_L)
                @ reply_bytes (burst_reply s 3 LIS3DH_OUT_Z_L) @ [0xC0]]"
proof -
  define t where "t = Custom_Timer_ISR s"
  define f where "f = OutArrayHR (loop_body t)"
  have gate: "CTRL_Reg_start (poll_status t)" "Timer_ISR_start t"
    using assms(2,3) by (simp_all add: t_def poll_status_flag)
  have lt: "length (OutArrayHR t) = 14"
    using assms(1) by (simp add: t_def well_framed_def)
  have lf: "length f = 14"
    using assms(1) by (simp add: f_def t_def well_framed_def)
  have ends: "f ! 0 = 0xA0" "f ! 13 = 0xC0"
    using assms(1) by (simp_all add: f_def t_def well_framed_def)
  have replies: "burst_reply t i reg = burst_reply s i reg" for i reg
    by (simp add: t_def)
  have axes: "axis_bytes 1 f = reply_bytes (burst_reply s 1 LIS3DH_OUT_X_L)"
    "axis_bytes 5 f = reply_bytes (burst_reply s 2 LIS3DH_OUT_Y_L)"
    "axis_bytes 9 f = reply_bytes (burst_reply s 3 LIS3DH_OUT_Z_L)"
    using gated_loop_body_axes [OF lt gate] assms(4-6)
    by (simp_all add: f_def replies)
  have ut: "uart t = uart s" by (simp add: t_def)
  have "frames (uart (loop_iteration True s)) = frames (uart s) @ [take 14 f]"
    using gate by (simp add: loop_iteration_def frames_loop_body t_def [symmetric] f_def ut)
  also have "take 14 f = f" using lf by simp
  also have "f = 0xA0 # reply_bytes (burst_reply s 1 LIS3DH_OUT_X_L)
                @ reply_bytes (burst_reply s 2 LIS3DH_OUT_Y_L)
                @ reply_bytes (burst_reply s 3 LIS3DH_OUT_Z_L) @ [0xC0]"
    using frame_from_parts [OF lf] by (simp only: ends axes)
  finally show ?thesis .
qed

subsection \<open>Packing and unpacking\<close>

lemma byte_mask: "(0xFF :: 32 word) = mask 8"
  by (simp add: mask_eq_exp_minus_1)

lemma unpack_pack_word:
  "ucast (ucast (v AND mask 8) :: 8 word)
     OR push_bit 8 (ucast (ucast (signed_drop_bit 8 v AND mask 8) :: 8 word))
     OR push_bit 16 (ucast (ucast (signed_drop_bit 16 v AND mask 8) :: 8 word))
     OR push_bit 24 (ucast (ucast (signed_drop_bit 24 v) :: 8 word)) = (v :: 32 word)"
  (is "?lhs = v")
proof (rule bit_word_eqI)
  fix n
  assume "n < LENGTH(32)"
  then consider "n < 8" | "8 \<le> n" "n < 16" | "16 \<le> n" "n < 24" | "24 \<le> n" "n < 32"
    by fastforce
  then show "bit ?lhs n = bit v n"
  proof cases
    case 1
    then show ?thesis by (simp add: bit_simps)
  next
    case 2
    then show ?thesis by (auto simp: bit_simps)
  next
    case 3
    then show ?thesis by (auto simp: bit_simps)
  next
    case 4
    then show ?thesis by (auto simp: bit_simps)
  qed
qed

lemma nth_axis_bytes:
  "i < 4 \<Longrightarrow> k + 4 \<le> length frame \<Longrightarrow> axis_bytes k frame ! i = frame ! (k + i)"
  by (simp add: axis_bytes_def)

lemma unpack_of_axis_bytes:
  assumes "k + 4 \<le> length frame" and "axis_bytes k frame = pack_bytes v"
  shows "unpack_le32 frame k = v"
proof -
  have "frame ! (k + i) = pack_bytes v ! i" if "i < 4" for i
    using nth_axis_bytes [OF that assms(1)] assms(2) by simp
  from this [of 0] this [of 1] this [of 2] this [of 3]
  show ?thesis
    by (simp add: unpack_le32_def pack_bytes_def byte_mask unpack_pack_word)
qed

subsection \<open>The start-up transactions\<close>

lemma write_count_append [simp]:
  "write_count reg (xs @ ys) = write_count reg xs + write_count reg ys"
  by (simp add: write_count_def)

lemma write_count_simps [simp]:
  "write_count reg [] = 0"
  "write_count reg (WriteRegister dev r v # xs) = (if r = reg then 1 else 0) + write_count reg xs"
  "write_count reg (ReadRegister dev r # xs) = write_count reg xs"
  by (simp_all add: write_count_def)

lemma configure_ctrl_reg1_log:
  "bus_log (configure_ctrl_reg1 s) =
     bus_log s
       @ [ReadRegister LIS3DH_DEVICE_ADDRESS LIS3DH_CTRL_REG1]
       @ (if byte0 (bus s (length (bus_log s))
                     (ReadRegister LIS3DH_DEVICE_ADDRESS LIS3DH_CTRL_REG1))
               = LIS3DH_100Hz_CTRL_REG1
          then []
          else [WriteRegister LIS3DH_DEVICE_ADDRESS LIS3DH_CTRL_REG1 LIS3DH_100Hz_CTRL_REG1])
       @ [ReadRegister LIS3DH_DEVICE_ADDRESS LIS3DH_CTRL_REG1]"
  by (simp add: configure_ctrl_reg1_def bus_defs Let_def)

lemma configure_temp_cfg_reg_log:
  "bus_log (configure_temp_cfg_reg s) =
     bus_log s
       @ [ReadRegister LIS3DH_DEVICE_ADDRESS LIS3DH_TEMP_CFG_REG,
          WriteRegister LIS3DH_DEVICE_ADDRESS LIS3DH_TEMP_CFG_REG LIS3DH_TEMP_CFG_REG_NOT_ACTIVE,
          ReadRegister LIS3DH_DEVICE_ADDRESS LIS3DH_TEMP_CFG_REG]"
  by (simp add: configure_temp_cfg_reg_def bus_defs Let_def)

lemma configure_ctrl_reg4_log:
  "bus_log (configure_ctrl_reg4 s) =
     bus_log s
       @ [ReadRegister LIS3DH_DEVICE_ADDRESS LIS3DH_CTRL_REG4,
          WriteRegister LIS3DH_DEVICE_ADDRESS LIS3DH_CTRL_REG4 LIS3DH_CTRL_REG4_4G_HIGH,
          ReadRegister LIS3DH_DEVICE_ADDRESS LIS3DH_CTRL_REG4]"
  by (simp add: configure_ctrl_reg4_def bus_defs Let_def)

lemma hex02_0x18: "hex02 0x18 = ''18''"
  by (simp add: hex02_def hex_digit_def)

subsection \<open>The example devices and the values of the scenario\<close>

lemma fixed_device_replies [simp]:
  "status_reply (s\<lparr>bus := fixed_device regs failing\<rparr>) =
     fixed_device regs failing 0 (ReadRegister LIS3DH_DEVICE_ADDRESS LIS3DH_STATUS_REG)"
  "burst_reply (s\<lparr>bus := fixed_device regs failing\<rparr>) i reg =
     fixed_device regs failing 0 (ReadRegisterMulti LIS3DH_DEVICE_ADDRESS reg 2)"
  by (simp_all add: status_reply_def burst_reply_def fixed_device_def)

lemma fixed_device_main [simp]:
  "status_reply (main ticks (fixed_device regs failing) cells) =
     fixed_device regs failing 0 (ReadRegister LIS3DH_DEVICE_ADDRESS LIS3DH_STATUS_REG)"
  "burst_reply (main ticks (fixed_device regs failing) cells) i reg =
     fixed_device regs failing 0 (ReadRegisterMulti LIS3DH_DEVICE_ADDRESS reg 2)"
  by (simp_all add: status_reply_def burst_reply_def fixed_device_def)

lemma scenario_X:
  "pack_bytes (physical_value (decode_sample 0x00 0x40)) = [0x4E, 0x00, 0x00, 0x00]"
  by (simp add: decode_sample_def raw16_def conv_defs pack_bytes_def)

lemma scenario_Y:
  "pack_bytes (physical_value (decode_sample 0x00 0x00)) = [0x00, 0x00, 0x00, 0x00]"
  by (simp add: decode_sample_def raw16_def conv_defs pack_bytes_def)

lemma scenario_Z:
  "pack_bytes (physical_value (decode_sample 0xF0 0xBF)) = [0x3B, 0xED, 0xFF, 0xFF]"
  by (simp add: decode_sample_def raw16_def conv_defs pack_bytes_def
        unsigned_minus_1_eq_mask mask_eq_exp_minus_1)

lemma bytes_of_1024: "pack_bytes (physical_value 1024) = [0x74, 0x4E, 0x00, 0x00]"
  by (simp add: conv_defs pack_bytes_def)

lemma bytes_of_0: "pack_bytes (physical_value 0) = [0x00, 0x00, 0x00, 0x00]"
  by (simp add: conv_defs pack_bytes_def)

lemma bytes_of_minus_1025: "pack_bytes (physical_value (- 1025)) = [0x79, 0xB1, 0xFF, 0xFF]"
  by (simp add: conv_defs pack_bytes_def unsigned_minus_1_eq_mask mask_eq_exp_minus_1)

section \<open>The claims\<close>

subsection \<open>C1: decoding a raw byte pair\<close>

lemma decode_sample_exchanged: "decode_sample d0 d1 = spec_decode d1 d0"
  unfolding decode_sample_def raw16_def spec_decode_def
  by (rule bit_word_eqI) (auto simp: bit_simps)

text \<open>
  Claim C1: for every pair \<open>(low, high)\<close> returned by a burst read, \<open>low\<close> being the byte
  at the lower address and returned first, the decoded sample is the arithmetic shift
  by 4 of the signed 16-bit value \<open>(high << 8) | low\<close>. Line 362 shifts the first byte
  of the buffer, which is \<open>low\<close>, into the upper half instead: for \<open>low = 0x00\<close> and
  \<open>high = 0x40\<close> the program decodes 4 where the claim's formula gives 1024.
\<close>

theorem decode_sample_low_first:
  "sint (decode_sample 0x00 0x40) = 4 \<and> sint (spec_decode 0x00 0x40) = 1024"
  by (simp add: decode_sample_def raw16_def spec_decode_def)

subsection \<open>C2: the conversion to physical units\<close>

text \<open>
  Claim C2 as stated fails: with the sensitivity of 2 that \<open>LIS3DH_SENS_4G\<close> has, a raw
  sample of 1024 becomes 20084, neither 40178 nor the exact product with 4, which
  truncates to 40168. Nor is the value always an exact product truncated: a raw sample
  of 406 becomes 7963, while \<open>406 * 2 * 9.80665 = 7962.9998\<close> truncates to 7962.
\<close>

theorem physical_value_sensitivity_4_counterexample:
  "sint (physical_value 1024) = 20084
   \<and> sint (physical_value 1024) \<noteq> spec_physical 4 (sint (1024 :: int16))
   \<and> sint (physical_value 1024) \<noteq> 40178
   \<and> sint (physical_value 406) = 7963
   \<and> spec_physical 2 (sint (406 :: int16)) = 7962"
  by (simp add: physical_value_1024 physical_value_406 spec_physical_def)

text \<open>
  Claim C2, amended: for every decoded raw sample (a value from -2048 to 2047) the value
  written into the frame is \<open>raw_shifted * 2 * 9.80665\<close>, multiplied in double
  precision, rounded to single precision and then truncated toward zero. It is the
  exact product truncated toward zero, except at the raw samples 406, 812, 1218, 1624,
  2030 and their negatives: there the rounding to single precision reaches the next
  integer and the value lies one unit further from zero (406 becomes 7963, the exact
  product being 7962.9998). A raw sample of 1024 becomes 20084.
\<close>

theorem physical_value_sensitivity_2:
  assumes "- 2048 \<le> sint raw_shifted" and "sint raw_shifted \<le> 2047"
  shows "sint (physical_value raw_shifted)
           = spec_physical 2 (sint raw_shifted)
             + (if \<bar>sint raw_shifted\<bar> \<in> {406, 812, 1218, 1624, 2030}
                then sgn (sint raw_shifted) else 0)
       \<and> sint (physical_value 1024) = 20084"
  using physical_value_exact [OF assms] by (simp add: physical_value_1024)

text \<open>The raw sample 406, one of the ten at which the rounding shows.\<close>

theorem physical_value_sensitivity_2_witness:
  "(- 2048 \<le> sint (406 :: int16) \<and> sint (406 :: int16) \<le> 2047)
   \<and> spec_physical 2 (sint (406 :: int16)) = 7962
   \<and> sint (physical_value 406) = 7963"
  using physical_value_sensitivity_2 [of 406] by (simp add: spec_physical_def)

subsection \<open>C3: the gate of the acquisition loop\<close>

text \<open>
  Claim C3: in every iteration the block that reads the three axes and emits a frame
  runs exactly when both flags are set at line 354, after the status register has been
  polled; then a frame is sent and the iteration issues four transactions instead of
  one. At the end of the iteration both flags are clear, whether the block ran or not.
\<close>

theorem gate_iff_both_flags:
  "(frames (uart (loop_body s)) \<noteq> frames (uart s)) =
     (CTRL_Reg_start (poll_status s) \<and> Timer_ISR_start (poll_status s))
   \<and> (length (bus_log (loop_body s)) = length (bus_log s) + 4) =
     (CTRL_Reg_start (poll_status s) \<and> Timer_ISR_start (poll_status s))
   \<and> CTRL_Reg_start (loop_body s) = False
   \<and> Timer_ISR_start (loop_body s) = False"
  by (simp add: loop_body_def Let_def)

subsection \<open>C4: every frame has 14 bytes, header and footer\<close>

text \<open>
  Claim C4: whatever the bus answers and whenever the timer fires, every frame handed
  to the UART has exactly 14 bytes, begins with 0xA0 and ends with 0xC0. The two bytes
  are written before the loop and no iteration writes offsets 0 or 13 again, so the
  frame array keeps them from one cycle to the next.
\<close>

theorem frames_well_framed:
  "list_all well_framed (frames (uart (main ticks b cells)))
   \<and> well_framed (OutArrayHR (main ticks b cells))
   \<and> OutArrayHR (loop_iteration tick s) ! 0 = OutArrayHR s ! 0
   \<and> OutArrayHR (loop_iteration tick s) ! 13 = OutArrayHR s ! 13"
  using run_well_framed [of "main_init (startup (power_on b cells))" ticks]
    loop_entry_well_framed [of b cells]
  by (simp add: main_def)

text \<open>A run in which a frame is sent: the scenario device, the timer having fired.\<close>

theorem frames_well_framed_witness:
  "frames (uart (main [True] (fixed_device scenario_regs []) (\<lambda>i. 0))) \<noteq> []
   \<and> list_all well_framed (frames (uart (main [True] (fixed_device scenario_regs []) (\<lambda>i. 0))))"
proof -
  let ?s = "main [] (fixed_device scenario_regs []) (\<lambda>i. 0)"
  have "CTRL_Reg_start (poll_status (Custom_Timer_ISR ?s))"
    by (simp add: poll_status_flag fixed_device_def scenario_regs_def reg_defs)
  then have "frames (uart (main [True] (fixed_device scenario_regs []) (\<lambda>i. 0))) \<noteq> []"
    by (simp add: main_Cons loop_iteration_def frames_loop_body)
  with frames_well_framed [of "[True]" "fixed_device scenario_regs []" "\<lambda>i. 0"]
  show ?thesis by simp
qed

subsection \<open>C5: a failed burst read leaves its axis as it was\<close>

text \<open>
  Claim C5: in a cycle where the gate is true and the burst read of exactly one axis
  fails, the four frame bytes of that axis stay as the previous cycle left them, the
  bytes of the two other axes are those converted from the new reads, and the whole
  14-byte array is sent. The burst reads are the three transactions after the status
  poll.
\<close>

theorem one_axis_failure:
  assumes "length (OutArrayHR s) = 14"
    and "CTRL_Reg_start (poll_status s)" and "Timer_ISR_start s"
    and "length (filter (\<lambda>r. result r \<noteq> NO_ERROR)
           [burst_reply s 1 LIS3DH_OUT_X_L, burst_reply s 2 LIS3DH_OUT_Y_L,
            burst_reply s 3 LIS3DH_OUT_Z_L]) = 1"
  shows "axis_bytes 1 (OutArrayHR (loop_body s)) =
           (if result (burst_reply s 1 LIS3DH_OUT_X_L) = NO_ERROR
            then reply_bytes (burst_reply s 1 LIS3DH_OUT_X_L)
            else axis_bytes 1 (OutArrayHR s))
       \<and> axis_bytes 5 (OutArrayHR (loop_body s)) =
           (if result (burst_reply s 2 LIS3DH_OUT_Y_L) = NO_ERROR
            then reply_bytes (burst_reply s 2 LIS3DH_OUT_Y_L)
            else axis_bytes 5 (OutArrayHR s))
       \<and> axis_bytes 9 (OutArrayHR (loop_body s)) =
           (if result (burst_reply s 3 LIS3DH_OUT_Z_L) = NO_ERROR
            then reply_bytes (burst_reply s 3 LIS3DH_OUT_Z_L)
            else axis_bytes 9 (OutArrayHR s))
       \<and> uart (loop_body s) = uart s @ [PutArray (OutArrayHR (loop_body s))]
       \<and> length (OutArrayHR (loop_body s)) = 14"
  using assms(1-3) by (rule gated_loop_body_axes)

text \<open>The scenario device with the burst read of Y failing: X and Z change, Y stays.\<close>

theorem one_axis_failure_witness:
  "axis_bytes 5 (OutArrayHR (loop_body (Custom_Timer_ISR (main [] (fixed_device scenario_regs
        [ReadRegisterMulti LIS3DH_DEVICE_ADDRESS LIS3DH_OUT_Y_L 2]) (\<lambda>i. 0)))))
     = axis_bytes 5 (OutArrayHR (main [] (fixed_device scenario_regs
        [ReadRegisterMulti LIS3DH_DEVICE_ADDRESS LIS3DH_OUT_Y_L 2]) (\<lambda>i. 0)))
   \<and> axis_bytes 1 (OutArrayHR (loop_body (Custom_Timer_ISR (main [] (fixed_device scenario_regs
        [ReadRegisterMulti LIS3DH_DEVICE_ADDRESS LIS3DH_OUT_Y_L 2]) (\<lambda>i. 0)))))
     = [0x4E, 0x00, 0x00, 0x00]
   \<and> axis_bytes 9 (OutArrayHR (loop_body (Custom_Timer_ISR (main [] (fixed_device scenario_regs
        [ReadRegisterMulti LIS3DH_DEVICE_ADDRESS LIS3DH_OUT_Y_L 2]) (\<lambda>i. 0)))))
     = [0x3B, 0xED, 0xFF, 0xFF]"
proof -
  define s where "s = Custom_Timer_ISR (main [] (fixed_device scenario_regs
        [ReadRegisterMulti LIS3DH_DEVICE_ADDRESS LIS3DH_OUT_Y_L 2]) (\<lambda>i. 0))"
  have h1: "length (OutArrayHR s) = 14" by (simp add: s_def)
  have h2: "CTRL_Reg_start (poll_status s)"
    by (simp add: s_def poll_status_flag fixed_device_def scenario_regs_def reg_defs)
  have h3: "Timer_ISR_start s" by (simp add: s_def)
  have h4: "length (filter (\<lambda>r. result r \<noteq> NO_ERROR)
           [burst_reply s 1 LIS3DH_OUT_X_L, burst_reply s 2 LIS3DH_OUT_Y_L,
            burst_reply s 3 LIS3DH_OUT_Z_L]) = 1"
    by (simp add: s_def fixed_device_def reg_defs)
  from one_axis_failure [OF h1 h2 h3 h4] show ?thesis
    unfolding s_def [symmetric]
    by (simp add: s_def reply_bytes_def fixed_device_def scenario_regs_def reg_defs
          scenario_X scenario_Z)
qed

subsection \<open>C6: the end-to-end scenario\<close>

text \<open>
  Claim C6 as stated fails: with status 0x07, the timer flag set and the registers
  X = (low 0x00, high 0x40), Y = 0, Z = (low 0xF0, high 0xBF), the program sends
  A0 4E 00 00 00 00 00 00 00 3B ED FF FF C0, not a frame that begins A0 32 9C 00 00.
\<close>

theorem scenario_frame_counterexample:
  "frames (uart (main [True] (fixed_device scenario_regs []) (\<lambda>i. 0))) =
     [[0xA0, 0x4E, 0x00, 0x00, 0x00, 0x00, 0x00, 0x00, 0x00, 0x3B, 0xED, 0xFF, 0xFF, 0xC0]]
   \<and> [0xA0, 0x4E, 0x00, 0x00, 0x00 :: uint8] \<noteq> [0xA0, 0x32, 0x9C, 0x00, 0x00]"
proof -
  let ?s = "main [] (fixed_device scenario_regs []) (\<lambda>i. 0)"
  have "frames (uart (loop_iteration True ?s)) =
      frames (uart ?s) @
        [0xA0 # reply_bytes (burst_reply ?s 1 LIS3DH_OUT_X_L)
           @ reply_bytes (burst_reply ?s 2 LIS3DH_OUT_Y_L)
           @ reply_bytes (burst_reply ?s 3 LIS3DH_OUT_Z_L) @ [0xC0]]"
    by (rule gated_iteration_frame)
      (simp_all add: well_framed_def fixed_device_def scenario_regs_def reg_defs)
  then show ?thesis
    by (simp add: main_Cons reply_bytes_def fixed_device_def scenario_regs_def reg_defs
          scenario_X scenario_Y scenario_Z)
qed

text \<open>
  Claim C6, amended: with a status register of 0x07, the timer flag set and three
  successful burst reads whose decoded samples are 1024 for X, 0 for Y and -1025 for Z,
  the frame sent is A0, then 74 4E 00 00 (20084, that is 1024 * 2 * 9.80665 truncated),
  then 00 00 00 00, then 79 B1 FF FF (-20103, that is -1025 * 2 * 9.80665 truncated,
  least significant byte first), then C0.
\<close>

theorem scenario_frame_sensitivity_2:
  assumes "well_framed (OutArrayHR s)"
    and "result (status_reply s) = NO_ERROR"
    and "byte0 (status_reply s) = 0x07"
    and "result (burst_reply s 1 LIS3DH_OUT_X_L) = NO_ERROR"
    and "result (burst_reply s 2 LIS3DH_OUT_Y_L) = NO_ERROR"
    and "result (burst_reply s 3 LIS3DH_OUT_Z_L) = NO_ERROR"
    and "decode_sample (byte0 (burst_reply s 1 LIS3DH_OUT_X_L))
           (byte1 (burst_reply s 1 LIS3DH_OUT_X_L)) = 1024"
    and "decode_sample (byte0 (burst_reply s 2 LIS3DH_OUT_Y_L))
           (byte1 (burst_reply s 2 LIS3DH_OUT_Y_L)) = 0"
    and "decode_sample (byte0 (burst_reply s 3 LIS3DH_OUT_Z_L))
           (byte1 (burst_reply s 3 LIS3DH_OUT_Z_L)) = - 1025"
  shows "frames (uart (loop_iteration True s)) =
           frames (uart s) @
             [[0xA0, 0x74, 0x4E, 0x00, 0x00, 0x00, 0x00, 0x00, 0x00,
               0x79, 0xB1, 0xFF, 0xFF, 0xC0]]"
  using gated_iteration_frame [OF assms(1,2) _ assms(4-6)] assms(3,7-9)
  by (simp add: reply_bytes_def bytes_of_1024 bytes_of_0 bytes_of_minus_1025)

text \<open>A device whose burst reads decode to these three samples.\<close>

theorem scenario_frame_sensitivity_2_witness:
  "frames (uart (main [True] (fixed_device exchanged_regs []) (\<lambda>i. 0))) =
     [[0xA0, 0x74, 0x4E, 0x00, 0x00, 0x00, 0x00, 0x00, 0x00, 0x79, 0xB1, 0xFF, 0xFF, 0xC0]]"
proof -
  let ?s = "main [] (fixed_device exchanged_regs []) (\<lambda>i. 0)"
  have "frames (uart (loop_iteration True ?s)) =
      frames (uart ?s) @
        [[0xA0, 0x74, 0x4E, 0x00, 0x00, 0x00, 0x00, 0x00, 0x00, 0x79, 0xB1, 0xFF, 0xFF, 0xC0]]"
    by (rule scenario_frame_sensitivity_2)
      (simp_all add: well_framed_def fixed_device_def exchanged_regs_def reg_defs
         decode_sample_def raw16_def)
  then show ?thesis by (simp add: main_Cons)
qed

subsection \<open>C7: reading before writing at start-up\<close>

text \<open>
  Claim C7: every configuration step at start-up reads its register first and skips
  the bus write when the value read back already equals the wanted one, so that the
  step issues no write when they are equal and exactly one when they differ. The step
  for control register 1 does so (the guard of line 190). The steps for the
  temperature configuration register (lines 248 to 252) and for control register 4
  (lines 288 to 292) lack the guard: on a device whose registers already read 0x57,
  0x00 and 0x18, the wanted values, the first step issues no write and the two others
  issue one write each.
\<close>

theorem ctrl_reg4_written_when_equal:
  "byte0 (fixed_device configured_regs [] 0
            (ReadRegister LIS3DH_DEVICE_ADDRESS LIS3DH_CTRL_REG4)) = LIS3DH_CTRL_REG4_4G_HIGH
   \<and> bus_log (configure_ctrl_reg4 (power_on (fixed_device configured_regs []) (\<lambda>i. 0))) =
       [ReadRegister 0x18 0x23, WriteRegister 0x18 0x23 0x18, ReadRegister 0x18 0x23]
   \<and> write_count LIS3DH_CTRL_REG4
        (bus_log (configure_ctrl_reg4 (power_on (fixed_device configured_regs []) (\<lambda>i. 0)))) = 1
   \<and> byte0 (fixed_device configured_regs [] 0
            (ReadRegister LIS3DH_DEVICE_ADDRESS LIS3DH_TEMP_CFG_REG))
       = LIS3DH_TEMP_CFG_REG_NOT_ACTIVE
   \<and> write_count LIS3DH_TEMP_CFG_REG
        (bus_log (configure_temp_cfg_reg (power_on (fixed_device configured_regs []) (\<lambda>i. 0))))
       = 1
   \<and> byte0 (fixed_device configured_regs [] 0
            (ReadRegister LIS3DH_DEVICE_ADDRESS LIS3DH_CTRL_REG1)) = LIS3DH_100Hz_CTRL_REG1
   \<and> write_count LIS3DH_CTRL_REG1
        (bus_log (configure_ctrl_reg1 (power_on (fixed_device configured_regs []) (\<lambda>i. 0))))
       = 0"
  by (simp add: configure_ctrl_reg1_log configure_temp_cfg_reg_log configure_ctrl_reg4_log
        fixed_device_def configured_regs_def reg_defs)

subsection \<open>C8: the result of every transaction is examined\<close>

text \<open>
  Claim C8: the result of every transaction is tested before the next transaction is
  issued. Lines 250 and 290 store the result of a write in \<open>error\<close>, and lines 254 and
  294 replace it with the result of the next read before anything tests it. When the
  write to control register 4 fails and the reads succeed, the output of the step is
  the one of a run without any failure: no error line is printed.
\<close>

theorem ctrl_reg4_write_failure_unreported:
  "result (fixed_device configured_regs
             [WriteRegister LIS3DH_DEVICE_ADDRESS LIS3DH_CTRL_REG4 LIS3DH_CTRL_REG4_4G_HIGH] 1
             (WriteRegister LIS3DH_DEVICE_ADDRESS LIS3DH_CTRL_REG4 LIS3DH_CTRL_REG4_4G_HIGH))
     = BusError
   \<and> uart (configure_ctrl_reg4 (power_on (fixed_device configured_regs
             [WriteRegister LIS3DH_DEVICE_ADDRESS LIS3DH_CTRL_REG4 LIS3DH_CTRL_REG4_4G_HIGH])
             (\<lambda>i. 0)))
     = [PutString (''CONTROL REGISTER 4: 0x18'' @ crlf),
        PutString (''CONTROL REGISTER 4 after being updated: 0x18'' @ crlf)]
   \<and> uart (configure_ctrl_reg4 (power_on (fixed_device configured_regs []) (\<lambda>i. 0)))
     = [PutString (''CONTROL REGISTER 4: 0x18'' @ crlf),
        PutString (''CONTROL REGISTER 4 after being updated: 0x18'' @ crlf)]"
  by (simp add: configure_ctrl_reg4_def bus_defs Let_def fixed_device_def configured_regs_def
        reg_defs hex02_0x18 power_on_def)

subsection \<open>C9: packing and unpacking three values\<close>

text \<open>
  Claim C9: for all signed 32-bit values x, y and z, storing them least significant
  byte first at offsets 1 to 4, 5 to 8 and 9 to 12 of a 14-byte frame and reading these
  offsets back as little-endian 32-bit values gives x, y and z again.
\<close>

theorem pack_unpack_roundtrip:
  assumes "length out = 14"
  shows "unpack_le32 (store_axis 9 z (store_axis 5 y (store_axis 1 x out))) 1 = x
       \<and> unpack_le32 (store_axis 9 z (store_axis 5 y (store_axis 1 x out))) 5 = y
       \<and> unpack_le32 (store_axis 9 z (store_axis 5 y (store_axis 1 x out))) 9 = z"
proof -
  let ?f = "store_axis 9 z (store_axis 5 y (store_axis 1 x out))"
  have "axis_bytes 1 ?f = pack_bytes x"
    using assms by (simp add: axis_bytes_store_other axis_bytes_store_same)
  moreover have "axis_bytes 5 ?f = pack_bytes y"
    using assms by (simp add: axis_bytes_store_other axis_bytes_store_same)
  moreover have "axis_bytes 9 ?f = pack_bytes z"
    using assms by (simp add: axis_bytes_store_same)
  ultimately show ?thesis
    using assms by (simp add: unpack_of_axis_bytes)
qed

text \<open>The values of the scenario in a frame array of zeros.\<close>

theorem pack_unpack_roundtrip_witness:
  "length (replicate 14 (0 :: uint8)) = 14
   \<and> unpack_le32 (store_axis 9 (- 20103) (store_axis 5 0 (store_axis 1 20084 (replicate 14 0)))) 9
       = - 20103"
  using pack_unpack_roundtrip [of "replicate 14 0" "- 20103" 0 20084] by simp

subsection \<open>C10: a failed status read\<close>

text \<open>
  Claim C10: at the head of any iteration of a run, if the read of the status register
  returns an error, the data-ready flag stays false, so the iteration issues no burst
  read (the status read is its only transaction) and hands nothing to the UART, also
  when the timer flag is set.
\<close>

theorem status_failure_skips_cycle:
  assumes "result (status_reply (main ticks b cells)) \<noteq> NO_ERROR"
  shows "\<not> CTRL_Reg_start (poll_status
             (if tick then Custom_Timer_ISR (main ticks b cells) else main ticks b cells))
       \<and> bus_log (loop_iteration tick (main ticks b cells))
           = bus_log (main ticks b cells)
               @ [ReadRegister LIS3DH_DEVICE_ADDRESS LIS3DH_STATUS_REG]
       \<and> uart (loop_iteration tick (main ticks b cells)) = uart (main ticks b cells)"
proof -
  define s where "s = main ticks b cells"
  define t where "t = (if tick then Custom_Timer_ISR s else s)"
  have "\<not> CTRL_Reg_start t" and "status_reply t = status_reply s"
    by (simp_all add: t_def s_def)
  with assms have flag: "\<not> CTRL_Reg_start (poll_status t)"
    by (simp add: poll_status_flag s_def)
  have "loop_iteration tick s = loop_body t"
    by (simp add: loop_iteration_def t_def)
  moreover have "bus_log t = bus_log s" and "uart t = uart s"
    by (simp_all add: t_def)
  ultimately show ?thesis
    using flag unfolding s_def [symmetric] t_def [symmetric]
    by (simp add: loop_body_def Let_def)
qed

text \<open>A device on which the read of the status register fails.\<close>

theorem status_failure_skips_cycle_witness:
  "result (status_reply (main [] (fixed_device scenario_regs
       [ReadRegister LIS3DH_DEVICE_ADDRESS LIS3DH_STATUS_REG]) (\<lambda>i. 0))) \<noteq> NO_ERROR
   \<and> uart (main [True] (fixed_device scenario_regs
       [ReadRegister LIS3DH_DEVICE_ADDRESS LIS3DH_STATUS_REG]) (\<lambda>i. 0))
     = uart (main [] (fixed_device scenario_regs
       [ReadRegister LIS3DH_DEVICE_ADDRESS LIS3DH_STATUS_REG]) (\<lambda>i. 0))"
proof -
  have h: "result (status_reply (main [] (fixed_device scenario_regs
       [ReadRegister LIS3DH_DEVICE_ADDRESS LIS3DH_STATUS_REG]) (\<lambda>i. 0))) \<noteq> NO_ERROR"
    by (simp add: fixed_device_def)
  from status_failure_skips_cycle [OF h, of True] h show ?thesis
    by (simp add: main_Cons)
qed

end
